theory Spec2Isabelle
  imports Complex_Main "HOL-Library.Word" "HOL-Library.Sublist"
begin

section \<open>The Flutter / PDF.js bridge (\<^verbatim>\<open>pdfjs/web/flutter_bridge.js\<close>)\<close>

text \<open>
  The bridge is a script with eight global variables, run by a browser. Its functions are
  embedded as transformers of one record, \<open>world\<close>, that holds the globals together with
  the part of the browser they read and write: the clock behind \<^verbatim>\<open>Date.now()\<close>, the parent
  window, the console, the pending timers, the window selection, the class list of the
  document body and the \<^verbatim>\<open>PDFViewerApplication\<close> object.

  Conventions.
  \<^item> Times are integers, in milliseconds. One run of a handler reads the clock as one
    instant: every \<^verbatim>\<open>Date.now()\<close> of one handler run is \<open>clock w\<close>.
  \<^item> A JavaScript string is the list of its UTF-16 code units.
  \<^item> Numbers that the bridge only copies (rectangle coordinates, the zoom factor) are
    rationals; no arithmetic is done on them.
  \<^item> An exception that escapes a handler ends that handler; what it had already written
    stays, and the console gets the error.
\<close>

subsection \<open>Strings\<close>

type_synonym jsstring = "16 word list"

definition js :: "string \<Rightarrow> jsstring" where
  "js s = map (of_nat \<circ> of_char) s"

text \<open>
  White space and line terminators of ECMAScript: what \<^verbatim>\<open>String.prototype.trim\<close> strips
  and what \<^verbatim>\<open>\s\<close> matches.
\<close>

definition isWhiteSpace :: "16 word \<Rightarrow> bool" where
  "isWhiteSpace c = (c \<in> set [0x9, 0xA, 0xB, 0xC, 0xD, 0x20, 0xA0, 0x1680,
      0x2000, 0x2001, 0x2002, 0x2003, 0x2004, 0x2005, 0x2006, 0x2007, 0x2008, 0x2009, 0x200A,
      0x2028, 0x2029, 0x202F, 0x205F, 0x3000, 0xFEFF])"

definition trim :: "jsstring \<Rightarrow> jsstring" where
  "trim s = rev (dropWhile isWhiteSpace (rev (dropWhile isWhiteSpace s)))"

subsection \<open>Data\<close>

text \<open>The object \<^verbatim>\<open>{x, y, width, height}\<close> stored in \<^verbatim>\<open>selectedTextPosition\<close>.\<close>

record position =
  pos_x :: rat
  pos_y :: rat
  pos_width :: rat
  pos_height :: rat

text \<open>
  The window selection: the string \<^verbatim>\<open>toString()\<close> returns and, for each of its ranges, the
  rectangle \<^verbatim>\<open>getBoundingClientRect()\<close> returns.
\<close>

record selection =
  selString :: jsstring
  selRanges :: "position list"

text \<open>
  \<^verbatim>\<open>window.PDFViewerApplication\<close>, as far as the bridge touches it: the properties
  \<^verbatim>\<open>page\<close> and \<^verbatim>\<open>pagesCount\<close>, whether \<^verbatim>\<open>eventBus\<close> is there, and
  \<^verbatim>\<open>pdfViewer.currentScale\<close> (\<open>None\<close> while \<^verbatim>\<open>pdfViewer\<close> is null). \<open>navigations\<close> lists
  the values assigned to \<^verbatim>\<open>page\<close>, in order: each assignment asks the viewer to navigate.
\<close>

record pdf_application =
  page :: int
  pagesCount :: int
  eventBus :: bool
  pdfViewer :: "rat option"
  navigations :: "int list"

text \<open>The second argument of \<^verbatim>\<open>sendToFlutter\<close>, one constructor for each object literal.\<close>

datatype payload =
    PdfReady (totalPages: int) (readyPage: int)
  | PageChange (previousPage: int) (newPage: int) (timeSpent: int)
      (sampleTotal: int) (sampleActive: int)
  | IdleStateChange bool
  | TextSelection jsstring int "position option"
  | Highlight jsstring int jsstring "position option"
  | BookmarkAdded int int
  | HighlightModeChanged bool

text \<open>
  The message \<^verbatim>\<open>{type, timestamp: Date.now(), ...data}\<close>. The spread comes last, so a
  \<^verbatim>\<open>timestamp\<close> of the data (\<^verbatim>\<open>bookmarkAdded\<close> has one) replaces the wrapper's.
\<close>

record message =
  msgType :: string
  timestamp :: int
  msgData :: payload

text \<open>A command of the host, \<^verbatim>\<open>event.data\<close>: its type and the two fields the listener reads.\<close>

record host_message =
  hostType :: string
  hostPage :: int
  hostZoom :: rat

datatype log_entry =
    Sending message
  | Received host_message
  | Info string
  | Error string

record world =
  currentPage :: int
  pageStartTime :: int
  totalTimeSpent :: int
  activeTimeSpent :: int
  idleTimeout :: "nat option"
  isIdle :: bool
  selectedText :: jsstring
  selectedTextPosition :: "position option"
  clock :: int
  hasParent :: bool
  posted :: "message list"
  console :: "log_entry list"
  timers :: "(nat \<times> int) list"
  nextTimer :: nat
  windowSelection :: selection
  highlightClass :: bool
  application :: "pdf_application option"
  pageChangingHandlers :: nat
  domListeners :: bool

text \<open>
  \<open>hasParent\<close> is the test \<^verbatim>\<open>window.parent && window.parent !== window\<close>; \<open>posted\<close> lists the
  messages handed to \<^verbatim>\<open>window.parent.postMessage\<close>. \<open>timers\<close> are the pending
  \<^verbatim>\<open>setTimeout\<close> calls of \<^verbatim>\<open>resetIdleTimer\<close>, each with its handle and the time it is due.
  \<open>highlightClass\<close> says whether the body has the class \<^verbatim>\<open>highlight-mode\<close>.
  \<open>pageChangingHandlers\<close> counts the closures registered for \<^verbatim>\<open>pagechanging\<close> (each call of
  \<^verbatim>\<open>setupEventListeners\<close> registers a new one); \<open>domListeners\<close> says whether the document
  listeners are registered (the same function registered again is registered once).
\<close>

text \<open>The state of the script once it is loaded at time \<open>t\<close>.\<close>

definition loaded :: "int \<Rightarrow> bool \<Rightarrow> pdf_application option \<Rightarrow> world" where
  "loaded t parent app =
     \<lparr> currentPage = 1, pageStartTime = t, totalTimeSpent = 0, activeTimeSpent = 0,
       idleTimeout = None, isIdle = False, selectedText = [], selectedTextPosition = None,
       clock = t, hasParent = parent, posted = [], console = [], timers = [], nextTimer = 1,
       windowSelection = \<lparr> selString = [], selRanges = [] \<rparr>, highlightClass = False,
       application = app, pageChangingHandlers = 0, domListeners = False \<rparr>"

subsection \<open>Flutter communication\<close>

definition dataTimestamp :: "payload \<Rightarrow> int option" where
  "dataTimestamp d = (case d of BookmarkAdded p t \<Rightarrow> Some t | _ \<Rightarrow> None)"

definition sendToFlutter :: "string \<Rightarrow> payload \<Rightarrow> world \<Rightarrow> world" where
  "sendToFlutter type d w =
     (let message = \<lparr> msgType = type,
                       timestamp = (case dataTimestamp d of Some t \<Rightarrow> t | None \<Rightarrow> clock w),
                       msgData = d \<rparr>;
          w1 = (if hasParent w then w\<lparr>posted := posted w @ [message]\<rparr> else w)
      in w1\<lparr>console := console w1 @ [Sending message]\<rparr>)"

text \<open>The messages \<^verbatim>\<open>sendToFlutter\<close> was called with, read off the console.\<close>

fun sentOf :: "log_entry list \<Rightarrow> message list" where
  "sentOf [] = []"
| "sentOf (Sending m # es) = m # sentOf es"
| "sentOf (e # es) = sentOf es"

definition sent :: "world \<Rightarrow> message list" where
  "sent w = sentOf (console w)"

subsection \<open>Commands from Flutter\<close>

definition onMessage :: "host_message \<Rightarrow> world \<Rightarrow> world" where
  "onMessage message w0 =
     (let w = w0\<lparr>console := console w0 @ [Received message]\<rparr> in
      if hostType message = ''goToPage'' then
        (case application w of
           Some app \<Rightarrow>
             if page app \<noteq> hostPage message
             then w\<lparr>application := Some (app\<lparr>page := hostPage message,
                        navigations := navigations app @ [hostPage message]\<rparr>)\<rparr>
             else w
         | None \<Rightarrow> w)
      else if hostType message = ''setZoom'' then
        (case application w of
           Some app \<Rightarrow>
             (case pdfViewer app of
                Some scale \<Rightarrow> w\<lparr>application := Some (app\<lparr>pdfViewer := Some (hostZoom message)\<rparr>)\<rparr>
              | None \<Rightarrow> w\<lparr>console := console w @ [Error ''TypeError'']\<rparr>)
         | None \<Rightarrow> w)
      else if hostType message = ''addBookmark'' then
        sendToFlutter ''bookmarkAdded'' (BookmarkAdded (currentPage w) (clock w)) w
      else if hostType message = ''toggleHighlightMode'' then
        (let highlightMode = \<not> highlightClass w
         in sendToFlutter ''highlightModeChanged'' (HighlightModeChanged highlightMode)
              (w\<lparr>highlightClass := highlightMode\<rparr>))
      else w)"

subsection \<open>Page change tracking\<close>

text \<open>
  \<^verbatim>\<open>Math.round(t / 1000)\<close> for an integer \<open>t\<close>: the nearest integer, a half rounded up.
\<close>

definition roundSeconds :: "int \<Rightarrow> int" where
  "roundSeconds t = (t + 500) div 1000"

definition onPageChange :: "int \<Rightarrow> world \<Rightarrow> world" where
  "onPageChange pageNum w =
     (let dwell = clock w - pageStartTime w;
          w1 = w\<lparr>totalTimeSpent := totalTimeSpent w + dwell\<rparr>;
          w2 = (if \<not> isIdle w1 then w1\<lparr>activeTimeSpent := activeTimeSpent w1 + dwell\<rparr> else w1);
          w3 = sendToFlutter ''pageChange''
                 (PageChange (currentPage w2) pageNum (roundSeconds dwell)
                    (roundSeconds (totalTimeSpent w2)) (roundSeconds (activeTimeSpent w2))) w2
      in w3\<lparr>currentPage := pageNum, pageStartTime := clock w3\<rparr>)"

subsection \<open>Idle detection\<close>

definition clearTimeout :: "nat \<Rightarrow> world \<Rightarrow> world" where
  "clearTimeout h w = w\<lparr>timers := filter (\<lambda>(i, due). i \<noteq> h) (timers w)\<rparr>"

text \<open>The callback given to \<^verbatim>\<open>setTimeout\<close>.\<close>

definition idleCallback :: "world \<Rightarrow> world" where
  "idleCallback w = sendToFlutter ''idleStateChange'' (IdleStateChange True) (w\<lparr>isIdle := True\<rparr>)"

definition resetIdleTimer :: "world \<Rightarrow> world" where
  "resetIdleTimer w =
     (let w1 = (case idleTimeout w of Some h \<Rightarrow> clearTimeout h w | None \<Rightarrow> w);
          wasIdle = isIdle w1;
          w2 = w1\<lparr>isIdle := False\<rparr>;
          w3 = (if wasIdle then sendToFlutter ''idleStateChange'' (IdleStateChange False) w2
                else w2)
      in w3\<lparr>idleTimeout := Some (nextTimer w3),
             timers := timers w3 @ [(nextTimer w3, clock w3 + 10000)],
             nextTimer := Suc (nextTimer w3)\<rparr>)"

subsection \<open>Text selection tracking and highlights\<close>

definition onTextSelection :: "world \<Rightarrow> world" where
  "onTextSelection w =
     (let sel = windowSelection w;
          w1 = w\<lparr>selectedText := trim (selString sel)\<rparr>
      in if selectedText w1 \<noteq> [] then
           (case selRanges sel of
              [] \<Rightarrow> w1\<lparr>console := console w1 @ [Error ''IndexSizeError'']\<rparr>
            | r # rs \<Rightarrow>
                (let w2 = w1\<lparr>selectedTextPosition := Some r\<rparr>
                 in sendToFlutter ''textSelection''
                      (TextSelection (selectedText w2) (currentPage w2) (selectedTextPosition w2))
                      w2))
         else
           sendToFlutter ''textSelection'' (TextSelection [] (currentPage w1) None)
             (w1\<lparr>selectedText := [], selectedTextPosition := None\<rparr>))"

text \<open>
  \<^verbatim>\<open>createHighlight(text, color = "yellow")\<close>: \<open>None\<close> is a call that gives no colour. The
  first parameter is never read.
\<close>

definition createHighlight :: "jsstring \<Rightarrow> jsstring option \<Rightarrow> world \<Rightarrow> world" where
  "createHighlight text color w =
     (if selectedText w = [] \<or> selectedTextPosition w = None then w
      else
        (let w1 = sendToFlutter ''highlight''
                    (Highlight (selectedText w) (currentPage w)
                       (case color of None \<Rightarrow> js ''yellow'' | Some c \<Rightarrow> c)
                       (selectedTextPosition w)) w
         in w1\<lparr>windowSelection := \<lparr> selString = [], selRanges = [] \<rparr>,
                selectedText := [], selectedTextPosition := None\<rparr>))"

subsection \<open>Initialisation\<close>

text \<open>
  \<^verbatim>\<open>setupEventListeners\<close>. \<^verbatim>\<open>PDFViewerApplication.page || 1\<close> is 1 when the page is 0.
  \<^verbatim>\<open>initializeFlutterBridge\<close> and the \<^verbatim>\<open>load\<close> listener only decide when this function
  runs, and it can run more than once.
\<close>

definition setupEventListeners :: "world \<Rightarrow> world" where
  "setupEventListeners w0 =
     (let w = w0\<lparr>console := console w0 @ [Info ''Setting up event listeners...'']\<rparr> in
      case application w of
        None \<Rightarrow> w\<lparr>console := console w @ [Error ''PDFViewerApplication or eventBus not available'']\<rparr>
      | Some app \<Rightarrow>
          if \<not> eventBus app
          then w\<lparr>console := console w @ [Error ''PDFViewerApplication or eventBus not available'']\<rparr>
          else
            (let w1 = w\<lparr>pageChangingHandlers := Suc (pageChangingHandlers w),
                         currentPage := (if page app = 0 then 1 else page app),
                         pageStartTime := clock w,
                         console := console w @ [Info ''Event listeners set up successfully'']\<rparr>;
                 w2 = w1\<lparr>domListeners := True\<rparr>;
                 w3 = resetIdleTimer w2
             in sendToFlutter ''pdfReady'' (PdfReady (pagesCount app) (currentPage w3)) w3))"

subsection \<open>The browser's events\<close>

text \<open>
  Timers that are due run in the order of their due times, each at its due time; the
  callback is the one of \<^verbatim>\<open>resetIdleTimer\<close>, the only timer the tracker sets.
\<close>

fun fire :: "(nat \<times> int) list \<Rightarrow> world \<Rightarrow> world" where
  "fire [] w = w"
| "fire ((h, due) # ts) w =
     fire ts (idleCallback ((clearTimeout h w)\<lparr>clock := max (clock w) due\<rparr>))"

definition elapse :: "nat \<Rightarrow> world \<Rightarrow> world" where
  "elapse d w =
     (let t = clock w + int d;
          due = sort_key snd (filter (\<lambda>(h, due). due \<le> t) (timers w))
      in (fire due w)\<lparr>clock := t\<rparr>)"

text \<open>
  What can happen to the loaded script: time passes; \<^verbatim>\<open>setupEventListeners\<close> runs; the user
  interacts (\<^verbatim>\<open>mousedown\<close>, \<^verbatim>\<open>mousemove\<close>, \<^verbatim>\<open>keypress\<close>, \<^verbatim>\<open>scroll\<close>, \<^verbatim>\<open>touchstart\<close>); the viewer
  moves to a page and emits \<^verbatim>\<open>pagechanging\<close>; the selection changes; the mouse button is
  released; the host posts a command; \<^verbatim>\<open>FlutterBridge.createHighlight\<close> is called.
\<close>

datatype event =
    Elapse nat
  | Setup
  | Interaction
  | PageChanging int
  | SelectionChange selection
  | MouseUp
  | HostCommand host_message
  | CreateHighlight jsstring "jsstring option"

fun step :: "event \<Rightarrow> world \<Rightarrow> world" where
  "step (Elapse d) w = elapse d w"
| "step Setup w = setupEventListeners w"
| "step Interaction w = (if domListeners w then resetIdleTimer w else w)"
| "step (PageChanging n) w =
     (onPageChange n ^^ pageChangingHandlers w)
       (w\<lparr>application := map_option (\<lambda>app. app\<lparr>page := n\<rparr>) (application w)\<rparr>)"
| "step (SelectionChange sel) w =
     (let w1 = w\<lparr>windowSelection := sel\<rparr> in if domListeners w1 then onTextSelection w1 else w1)"
| "step MouseUp w = (if domListeners w then onTextSelection w else w)"
| "step (HostCommand m) w = onMessage m w"
| "step (CreateHighlight text color) w = createHighlight text color w"

fun run :: "event list \<Rightarrow> world \<Rightarrow> world" where
  "run [] w = w"
| "run (e # es) w = run es (step e w)"

text \<open>
  An event is quiet when it is no interaction of the user and does not set up the
  listeners: a quiet event leaves the idle timer alone.
\<close>

fun quiet :: "event \<Rightarrow> bool" where
  "quiet Interaction = False"
| "quiet Setup = False"
| "quiet e = True"

text \<open>The time that passes during a list of events.\<close>

fun duration :: "event list \<Rightarrow> nat" where
  "duration [] = 0"
| "duration (Elapse d # es) = d + duration es"
| "duration (e # es) = duration es"

text \<open>
  A list of events is calm, \<open>t\<close> milliseconds after the last interaction, when it never
  lets ten seconds pass without an interaction (and does not set up the listeners again).
\<close>

fun calm :: "nat \<Rightarrow> event list \<Rightarrow> bool" where
  "calm t [] = True"
| "calm t (Elapse d # es) = (t + d < 10000 \<and> calm (t + d) es)"
| "calm t (Interaction # es) = calm 0 es"
| "calm t (Setup # es) = False"
| "calm t (e # es) = calm t es"

subsection \<open>Notions used in the statements\<close>

text \<open>The message \<^verbatim>\<open>sendToFlutter\<close> builds in the world \<open>w\<close>.\<close>

definition mkMessage :: "string \<Rightarrow> payload \<Rightarrow> world \<Rightarrow> message" where
  "mkMessage type d w =
     \<lparr> msgType = type,
       timestamp = (case dataTimestamp d of Some t \<Rightarrow> t | None \<Rightarrow> clock w),
       msgData = d \<rparr>"

text \<open>The messages sent between an earlier world and a later one.\<close>

definition sentSince :: "world \<Rightarrow> world \<Rightarrow> message list" where
  "sentSince w w' = drop (length (sent w)) (sent w')"

text \<open>The values of the \<^verbatim>\<open>idleStateChange\<close> messages of a list, in order.\<close>

fun idleChanges :: "message list \<Rightarrow> bool list" where
  "idleChanges [] = []"
| "idleChanges (m # ms) =
     (case msgData m of IdleStateChange b \<Rightarrow> b # idleChanges ms | _ \<Rightarrow> idleChanges ms)"

text \<open>A telemetry sample is in order when its active time is at most its total time.\<close>

fun sampleOk :: "payload \<Rightarrow> bool" where
  "sampleOk (PageChange p n dwell tot act) = (act \<le> tot)"
| "sampleOk d = True"

definition timeInv :: "world \<Rightarrow> bool" where
  "timeInv w = (activeTimeSpent w \<le> totalTimeSpent w \<and> pageStartTime w \<le> clock w \<and>
                list_all (\<lambda>m. sampleOk (msgData m)) (sent w))"

text \<open>Every pending timer is the one whose handle \<^verbatim>\<open>idleTimeout\<close> holds.\<close>

definition timersOk :: "world \<Rightarrow> bool" where
  "timersOk w = list_all (\<lambda>(h, due). idleTimeout w = Some h) (timers w)"

text \<open>
  Whether there is a parent window is as given, and what was posted is what was sent when
  there is one, and nothing otherwise.
\<close>

definition delivered :: "bool \<Rightarrow> world \<Rightarrow> bool" where
  "delivered parent w =
     (hasParent w = parent \<and> posted w = (if parent then sent w else []))"

text \<open>
  The world without its console. The console is the diagnostic log: the listener writes
  every command it receives there.
\<close>

definition observable :: "world \<Rightarrow> world" where
  "observable w = w\<lparr>console := []\<rparr>"

text \<open>
  The tracker \<open>t\<close> milliseconds after the last interaction, with \<open>t\<close> below ten seconds:
  listening, active, and its one timer due ten seconds after that interaction.
\<close>

definition activeFor :: "nat \<Rightarrow> world \<Rightarrow> bool" where
  "activeFor t w = (t < 10000 \<and> domListeners w \<and> \<not> isIdle w \<and>
     (\<exists>h. timers w = [(h, clock w - int t + 10000)] \<and> idleTimeout w = Some h))"

text \<open>The tracker once the timer has fired: listening, idle, and no timer pending.\<close>

definition idleNow :: "world \<Rightarrow> bool" where
  "idleNow w = (domListeners w \<and> isIdle w \<and> timers w = [])"

text \<open>
  The second world differs from the first in nothing the idle detection reads, and no
  \<^verbatim>\<open>idleStateChange\<close> was sent in between.
\<close>

definition sameTimer :: "world \<Rightarrow> world \<Rightarrow> bool" where
  "sameTimer w w' = (clock w' = clock w \<and> timers w' = timers w \<and>
     idleTimeout w' = idleTimeout w \<and> isIdle w' = isIdle w \<and>
     domListeners w' = domListeners w \<and>
     (\<exists>ms. sent w' = sent w @ ms \<and> idleChanges ms = []))"

text \<open>A viewer with five pages, showing the first, for the examples.\<close>

definition demoApp :: pdf_application where
  "demoApp = \<lparr> page = 1, pagesCount = 5, eventBus = True, pdfViewer = Some 1, navigations = [] \<rparr>"

text \<open>
  Two visits of page 2 that last twelve seconds, from 1000 to 13000, the last three of
  them idle: the timer set at 0 fires at 10000. In the first an interaction ends the idle
  period just before the page changes; in the second the page changes while idle.
\<close>

definition visitEndingActive :: "event list" where
  "visitEndingActive =
     [Setup, Elapse 1000, PageChanging 2, Elapse 12000, Interaction, PageChanging 3]"

definition visitEndingIdle :: "event list" where
  "visitEndingIdle = [Setup, Elapse 1000, PageChanging 2, Elapse 12000, PageChanging 3]"

text \<open>
  A reader spends five seconds on page 1 and goes to page 2 at 105000. The tracker turns
  idle at 110000, ten seconds after it was set up. Then the clock is set back to 104000,
  as a correction of the system time does to \<^verbatim>\<open>Date.now()\<close>.
\<close>

definition clockSetBack :: world where
  "clockSetBack =
     (run [Setup, Elapse 5000, PageChanging 2, Elapse 5000] (loaded 100000 True (Some demoApp)))
       \<lparr>clock := 104000\<rparr>"

section \<open>Annotation capture (the bridge revision with \<^verbatim>\<open>captureAllAnnotations\<close>)\<close>

text \<open>
  The file \<^verbatim>\<open>UPDATE_CORS_FOR_CUSTOM_DOMAIN.md\<close> carries, after its own text, two more revisions
  of the bridge script. The first of them (lines 76 to 625 of that file) adds the capture of
  the annotations a reader draws or types: \<^verbatim>\<open>captureEditorAnnotations\<close>,
  \<^verbatim>\<open>captureAnnotationData\<close> and \<^verbatim>\<open>captureAllAnnotations\<close>. Its \<^verbatim>\<open>setupEventListeners\<close>
  registers \<^verbatim>\<open>captureEditorAnnotations(evt.pageNumber)\<close> for the viewer's
  \<^verbatim>\<open>annotationeditorlayerrendered\<close> event and starts
  \<^verbatim>\<open>setInterval(captureAllAnnotations, 2000)\<close>. Where a function of the bridge is in more
  than one revision, the sections on the bridge are about the one in
  \<^verbatim>\<open>pdfjs/web/flutter_bridge.js\<close>.

  The capture reads and writes the elements of the editor layers and calls
  \<^verbatim>\<open>sendToFlutter\<close>; it touches none of the bridge's global variables. It is embedded over
  a state of its own.
\<close>

text \<open>
  An element of a page's editor layer.
  \<^item> \<open>el_node\<close> is the identity of the DOM node, which the script cannot read; it is there
    to tell which element a message is about.
  \<^item> \<open>el_page\<close> is the number of the page whose editor layer holds the element.
  \<^item> \<open>el_childDiv\<close>: the element matches \<^verbatim>\<open>.annotationEditorLayer > div\<close>, the selector of
    \<^verbatim>\<open>captureEditorAnnotations\<close>.
  \<^item> \<open>el_polled\<close>: the element matches
    \<^verbatim>\<open>section, div[class*="Editor"], *[data-editor-rotation]\<close>, the selector of
    \<^verbatim>\<open>captureAllAnnotations\<close>.
  \<^item> \<open>el_editorType\<close>, \<open>el_sent\<close> and \<open>el_annotationId\<close> are the attributes
    \<^verbatim>\<open>data-editor-type\<close>, \<^verbatim>\<open>data-sent-to-flutter\<close> (present with a non-empty value, or not)
    and \<^verbatim>\<open>data-annotation-id\<close>.
  \<^item> \<open>el_throws\<close>: reading the element's geometry, style or canvas throws.
\<close>

record editor_element =
  el_node :: nat
  el_page :: int
  el_childDiv :: bool
  el_polled :: bool
  el_editorType :: "string option"
  el_sent :: bool
  el_annotationId :: "nat option"
  el_throws :: bool

text \<open>
  What \<^verbatim>\<open>captureAnnotationData\<close> hands to \<^verbatim>\<open>sendToFlutter("annotation", annotationData)\<close>, as
  far as the properties below read it: the \<^verbatim>\<open>type\<close> and \<^verbatim>\<open>page\<close> fields of
  \<^verbatim>\<open>annotationData\<close>, and the element the data was read from. The position, the time stamp
  and the data particular to a type are left out.
\<close>

record annotation_message =
  ann_type :: string
  ann_page :: int
  ann_element :: nat

text \<open>
  The state: the elements now in the editor layers, in document order; the number of page
  views (\<^verbatim>\<open>viewer._pages.length\<close>); the annotation messages handed to \<^verbatim>\<open>sendToFlutter\<close> so
  far, in order; and two counters, for the identity of the next node and for the next
  generated annotation id. A page view without an editor layer is one without elements.
\<close>

record capture_state =
  elements :: "editor_element list"
  pageViews :: nat
  emitted :: "annotation_message list"
  nextNode :: nat
  nextId :: nat

text \<open>
  \<^verbatim>\<open>captureAnnotationData(element, pageNumber)\<close>. The type is
  \<^verbatim>\<open>element.getAttribute("data-editor-type") || "unknown"\<close>. The whole body is inside
  \<^verbatim>\<open>try\<close>: when reading the element throws, the error goes to the console and nothing is
  sent. The result is the list of messages sent, none or one.
\<close>

definition captureAnnotationData :: "editor_element \<Rightarrow> int \<Rightarrow> annotation_message list" where
  "captureAnnotationData element pageNumber =
     (let annotationType =
            (case el_editorType element of
               None \<Rightarrow> ''unknown''
             | Some ty \<Rightarrow> if ty = [] then ''unknown'' else ty)
      in if el_throws element then []
         else [\<lparr> ann_type = annotationType, ann_page = pageNumber,
                 ann_element = el_node element \<rparr>])"

text \<open>
  \<^verbatim>\<open>captureEditorAnnotations(pageNumber)\<close>, the handler of
  \<^verbatim>\<open>annotationeditorlayerrendered\<close>: when the page has a view, every \<^verbatim>\<open>div\<close> child of its
  editor layer is passed to \<^verbatim>\<open>captureAnnotationData\<close>. The attribute
  \<^verbatim>\<open>data-sent-to-flutter\<close> is neither read nor written here.
\<close>

definition captureEditorAnnotations :: "int \<Rightarrow> capture_state \<Rightarrow> capture_state" where
  "captureEditorAnnotations pageNumber st =
     (if 1 \<le> pageNumber \<and> pageNumber \<le> int (pageViews st) then
        (let editors = filter (\<lambda>e. el_page e = pageNumber \<and> el_childDiv e) (elements st)
         in st\<lparr>emitted := emitted st @
                  concat (map (\<lambda>editor. captureAnnotationData editor pageNumber) editors)\<rparr>)
      else st)"

text \<open>
  The body of the loop of \<^verbatim>\<open>captureAllAnnotations\<close> for the page \<open>p\<close>, over the elements in
  document order. An element of the page that matches the selector and does not carry
  \<^verbatim>\<open>data-sent-to-flutter\<close> gets that attribute and \<^verbatim>\<open>data-annotation-id\<close> (the id it has, or
  a generated one; \<open>k\<close> counts the generated ids), and only then is passed to
  \<^verbatim>\<open>captureAnnotationData\<close>. The type the loop works out from the class name is only
  logged. The result is the elements, the messages sent and the counter.
\<close>

fun pollEditors ::
  "int \<Rightarrow> editor_element list \<Rightarrow> nat
     \<Rightarrow> editor_element list \<times> annotation_message list \<times> nat" where
  "pollEditors p [] k = ([], [], k)"
| "pollEditors p (editor # es) k =
     (if el_page editor = p \<and> el_polled editor \<and> \<not> el_sent editor then
        (let i = (case el_annotationId editor of Some i \<Rightarrow> i | None \<Rightarrow> k);
             k1 = (case el_annotationId editor of Some i \<Rightarrow> k | None \<Rightarrow> Suc k);
             marked = editor\<lparr>el_sent := True, el_annotationId := Some i\<rparr>;
             rest = pollEditors p es k1
         in (marked # fst rest, captureAnnotationData marked p @ fst (snd rest),
             snd (snd rest)))
      else
        (let rest = pollEditors p es k
         in (editor # fst rest, fst (snd rest), snd (snd rest))))"

definition pollPage :: "int \<Rightarrow> capture_state \<Rightarrow> capture_state" where
  "pollPage p st =
     (let result = pollEditors p (elements st) (nextId st)
      in st\<lparr>elements := fst result, emitted := emitted st @ fst (snd result),
            nextId := snd (snd result)\<rparr>)"

text \<open>
  \<^verbatim>\<open>captureAllAnnotations()\<close>, run every two seconds: the page views \<^verbatim>\<open>viewer._pages[i]\<close>
  in order, the page of view \<open>i\<close> being \<open>i + 1\<close>.
\<close>

definition captureAllAnnotations :: "capture_state \<Rightarrow> capture_state" where
  "captureAllAnnotations st = foldl (\<lambda>s i. pollPage (int i + 1) s) st [0..<pageViews st]"

text \<open>
  What happens to the capture: the interval fires; the viewer signals that the editor layer
  of a page was rendered; an element appears in an editor layer (its page, whether it
  matches each of the two selectors, its type and id attributes, whether reading it
  throws), without the attribute \<^verbatim>\<open>data-sent-to-flutter\<close>; an element is removed.
\<close>

datatype capture_event =
    PollTick
  | EditorLayerRendered int
  | ElementCreated int bool bool "string option" "nat option" bool
  | ElementRemoved nat

fun captureStep :: "capture_event \<Rightarrow> capture_state \<Rightarrow> capture_state" where
  "captureStep PollTick st = captureAllAnnotations st"
| "captureStep (EditorLayerRendered p) st = captureEditorAnnotations p st"
| "captureStep (ElementCreated p child polled ty aid throws) st =
     st\<lparr>elements := elements st @
            [\<lparr> el_node = nextNode st, el_page = p, el_childDiv = child, el_polled = polled,
               el_editorType = ty, el_sent = False, el_annotationId = aid,
               el_throws = throws \<rparr>],
        nextNode := Suc (nextNode st)\<rparr>"
| "captureStep (ElementRemoved n) st =
     st\<lparr>elements := filter (\<lambda>e. el_node e \<noteq> n) (elements st)\<rparr>"

fun captureRun :: "capture_event list \<Rightarrow> capture_state \<Rightarrow> capture_state" where
  "captureRun [] st = st"
| "captureRun (e # es) st = captureRun es (captureStep e st)"

text \<open>A viewer with \<open>n\<close> page views and no element in any editor layer.\<close>

definition emptyView :: "nat \<Rightarrow> capture_state" where
  "emptyView n = \<lparr> elements = [], pageViews = n, emitted = [], nextNode = 0, nextId = 0 \<rparr>"

text \<open>The events other than the layer-rendered signal.\<close>

fun polling :: "capture_event \<Rightarrow> bool" where
  "polling (EditorLayerRendered p) = False"
| "polling e = True"

text \<open>The elements the loop of \<^verbatim>\<open>captureAllAnnotations\<close> takes up for the page \<open>p\<close>.\<close>

definition toPoll :: "int \<Rightarrow> editor_element \<Rightarrow> bool" where
  "toPoll p e = (el_page e = p \<and> el_polled e \<and> \<not> el_sent e)"

text \<open>
  What the polling keeps true: nodes are numbered below the counter and no two elements are
  the same node; no two messages are about the same node; and an element a message is
  about carries \<^verbatim>\<open>data-sent-to-flutter\<close>.
\<close>

definition captureInv :: "capture_state \<Rightarrow> bool" where
  "captureInv st =
     (list_all (\<lambda>e. el_node e < nextNode st) (elements st) \<and>
      distinct (map el_node (elements st)) \<and>
      list_all (\<lambda>m. ann_element m < nextNode st) (emitted st) \<and>
      distinct (map ann_element (emitted st)) \<and>
      list_all (\<lambda>e. el_sent e \<or> el_node e \<notin> set (map ann_element (emitted st))) (elements st))"

section \<open>Note highlights (the bridge revision with \<^verbatim>\<open>highlightNotesOnPage\<close>)\<close>

text \<open>
  The second revision in \<^verbatim>\<open>UPDATE_CORS_FOR_CUSTOM_DOMAIN.md\<close> (lines 626 to 1204 of that file)
  keeps the notes of the book in a global \<^verbatim>\<open>bookNotes\<close> and marks, in the text layer of a
  page, the text each note of the page was taken on: \<^verbatim>\<open>findRawOffset\<close> and
  \<^verbatim>\<open>highlightNotesOnPage\<close>. The function reads \<^verbatim>\<open>bookNotes\<close> and the text layers of the
  document and rewrites one text layer; it is embedded over these two.
\<close>

text \<open>A note, as the \<^verbatim>\<open>displayNotes\<close> command delivers it.\<close>

record note_data =
  note_id :: jsstring
  note_page :: int
  note_selectedText :: jsstring
  note_title :: "jsstring option"
  note_content :: jsstring

text \<open>
  The \<^verbatim>\<open>span\<close> of class \<^verbatim>\<open>note-highlight\<close> the function creates: its attribute
  \<^verbatim>\<open>data-note-id\<close>, and a ghost field that the script does not store, telling whether the
  text it marks was found by the search for the whole search text (\<open>True\<close>) or by the
  search for its first long words (\<open>False\<close>).
\<close>

record note_highlight =
  hl_noteId :: jsstring
  hl_exact :: bool

text \<open>
  A text layer is the list of its text nodes in document order, which is the order the
  \<^verbatim>\<open>TreeWalker\<close> visits them in. A text node has its text, and the highlight \<^verbatim>\<open>span\<close> it is
  the child of, if any.
\<close>

record text_node =
  textContent :: jsstring
  wrapper :: "note_highlight option"

text \<open>
  The document: the notes, and the elements of class \<^verbatim>\<open>textLayer\<close> in document order, each
  with its attribute \<^verbatim>\<open>data-page-number\<close> if it has one.
\<close>

record document =
  bookNotes :: "note_data list"
  textLayers :: "(int option \<times> text_node list) list"

text \<open>
  How a call ends: there is no note for the page; the function has asked to be called
  again after so many milliseconds; or it has gone through the notes.
\<close>

datatype outcome = NoNotes | Retry nat | Highlighted

text \<open>
  \<^verbatim>\<open>s.replace(/\s+/g, " ")\<close>: every maximal run of white space becomes one space. The flag
  tells whether the character before was white space.
\<close>

fun collapseFrom :: "bool \<Rightarrow> jsstring \<Rightarrow> jsstring" where
  "collapseFrom inRun [] = []"
| "collapseFrom inRun (c # cs) =
     (if isWhiteSpace c
      then (if inRun then collapseFrom True cs else 0x20 # collapseFrom True cs)
      else c # collapseFrom False cs)"

definition collapseWhitespace :: "jsstring \<Rightarrow> jsstring" where
  "collapseWhitespace s = collapseFrom False s"

text \<open>\<^verbatim>\<open>note.selectedText.trim().replace(/\s+/g, " ")\<close>, the search text of a note.\<close>

definition normalizeSearch :: "jsstring \<Rightarrow> jsstring" where
  "normalizeSearch s = collapseWhitespace (trim s)"

definition findRawOffset :: "jsstring \<Rightarrow> nat \<Rightarrow> nat" where
  "findRawOffset normalizedText normalizedOffset =
     (if normalizedOffset < length normalizedText then normalizedOffset
      else length normalizedText)"

text \<open>
  \<^verbatim>\<open>hay.indexOf(needle)\<close>: the first position where \<open>needle\<close> starts in \<open>hay\<close>; \<open>None\<close> stands
  for \<^verbatim>\<open>-1\<close>.
\<close>

fun indexFrom :: "nat \<Rightarrow> jsstring \<Rightarrow> jsstring \<Rightarrow> nat option" where
  "indexFrom i [] needle = (if needle = [] then Some i else None)"
| "indexFrom i (c # cs) needle =
     (if prefix needle (c # cs) then Some i else indexFrom (Suc i) cs needle)"

definition indexOf :: "jsstring \<Rightarrow> jsstring \<Rightarrow> nat option" where
  "indexOf hay needle = indexFrom 0 hay needle"

text \<open>\<^verbatim>\<open>s.split(" ")\<close>, with the piece read so far, and \<^verbatim>\<open>ws.join(" ")\<close>.\<close>

fun splitFrom :: "jsstring \<Rightarrow> jsstring \<Rightarrow> jsstring list" where
  "splitFrom cur [] = [cur]"
| "splitFrom cur (c # cs) =
     (if c = 0x20 then cur # splitFrom [] cs else splitFrom (cur @ [c]) cs)"

fun joinWords :: "jsstring list \<Rightarrow> jsstring" where
  "joinWords [] = []"
| "joinWords [w] = w"
| "joinWords (w # ws) = w @ 0x20 # joinWords ws"

text \<open>
  The text layer the function works on, as an index into the text layers:
  \<^verbatim>\<open>querySelector('.textLayer[data-page-number="p"]') || querySelector(".textLayer")\<close>, the
  first layer that carries the page number, else the first layer of the document.
\<close>

fun layerIndexFrom :: "nat \<Rightarrow> int \<Rightarrow> (int option \<times> text_node list) list \<Rightarrow> nat option" where
  "layerIndexFrom k p [] = None"
| "layerIndexFrom k p ((q, layer) # ls) =
     (if q = Some p then Some k else layerIndexFrom (Suc k) p ls)"

definition chosenLayer :: "int \<Rightarrow> (int option \<times> text_node list) list \<Rightarrow> nat option" where
  "chosenLayer p layers =
     (case layerIndexFrom 0 p layers of
        Some k \<Rightarrow> Some k
      | None \<Rightarrow> (if layers = [] then None else Some 0))"

text \<open>
  The array \<^verbatim>\<open>allTextNodes\<close> is filled once, before the notes are gone through, and every
  note reads the \<^verbatim>\<open>textContent\<close> of its nodes anew. \<^verbatim>\<open>Range.surroundContents\<close> on a range
  inside one text node leaves in that node the text before the range, and puts after it
  two nodes the array does not have: the \<^verbatim>\<open>span\<close> with a new text node for the text of the
  range, and a new text node for the text after the range. So an entry of the array is
  kept as a \<open>slot\<close>: the text its node has now, together with the nodes that were
  inserted after that node, in document order.

  Before the notes are gone through, every \<^verbatim>\<open>.note-highlight\<close> of the layer is unwrapped:
  its text nodes, which are in the array, stay, and no node of the array is inside a
  highlight from then on.
\<close>

type_synonym slot = "jsstring \<times> text_node list"

definition allTextNodes :: "text_node list \<Rightarrow> slot list" where
  "allTextNodes layer = map (\<lambda>nd. (textContent nd, [])) layer"

text \<open>The text nodes of the layer that the slots stand for, in document order.\<close>

definition layerOf :: "slot list \<Rightarrow> text_node list" where
  "layerOf slots =
     concat (map (\<lambda>(raw, inserted). \<lparr> textContent = raw, wrapper = None \<rparr> # inserted) slots)"

text \<open>
  The strings \<^verbatim>\<open>normalizedFullText\<close> and \<^verbatim>\<open>fullText\<close> a note builds from the nodes of the
  array.
\<close>

definition normalizedFullText :: "slot list \<Rightarrow> jsstring" where
  "normalizedFullText slots = concat (map (\<lambda>(raw, inserted). collapseWhitespace raw) slots)"

definition fullText :: "slot list \<Rightarrow> jsstring" where
  "fullText slots = concat (map fst slots)"

text \<open>
  The loop over \<^verbatim>\<open>nodePositions\<close>: the node whose stretch of the normalized text holds
  \<open>matchIndex\<close> gets the range from \<open>rawOffset\<close> to \<open>rawEndOffset\<close> surrounded by the
  \<^verbatim>\<open>span\<close>, and the loop ends. \<^verbatim>\<open>range.setStart\<close> throws when the offset is beyond the
  node's text; the \<^verbatim>\<open>catch\<close> logs the error and the loop goes on.
\<close>

fun surround ::
  "nat \<Rightarrow> nat \<Rightarrow> jsstring \<Rightarrow> note_highlight \<Rightarrow> slot list \<Rightarrow> slot list" where
  "surround normalizedStart matchIndex matchText spanEl [] = []"
| "surround normalizedStart matchIndex matchText spanEl ((rawText, inserted) # rest) =
     (let normalizedText = collapseWhitespace rawText;
          normalizedEnd = normalizedStart + length normalizedText
      in if normalizedStart \<le> matchIndex \<and> matchIndex < normalizedEnd then
           (let normalizedOffset = matchIndex - normalizedStart;
                rawOffset = findRawOffset normalizedText normalizedOffset
            in if length rawText < rawOffset
               then (rawText, inserted) # surround normalizedEnd matchIndex matchText spanEl rest
               else
                 (let rawEndOffset = min (rawOffset + length matchText) (length rawText)
                  in (take rawOffset rawText,
                      \<lparr> textContent = take (rawEndOffset - rawOffset) (drop rawOffset rawText),
                        wrapper = Some spanEl \<rparr>
                      # \<lparr> textContent = drop rawEndOffset rawText, wrapper = None \<rparr>
                      # inserted) # rest))
         else (rawText, inserted) # surround normalizedEnd matchIndex matchText spanEl rest)"

text \<open>
  The body of \<^verbatim>\<open>pageNotes.forEach\<close> for one note. A note without selected text, or whose
  search text is empty, is passed over. The whole search text is looked for first; when it
  is not found, the first three of its words longer than three characters are, and a note
  without such a word is passed over.
\<close>

definition highlightNote :: "note_data \<Rightarrow> slot list \<Rightarrow> slot list" where
  "highlightNote note slots =
     (if note_selectedText note = [] then slots
      else
        (let searchText = normalizeSearch (note_selectedText note) in
         if searchText = [] then slots
         else
           (case indexOf (normalizedFullText slots) searchText of
              Some textIndex \<Rightarrow>
                surround 0 textIndex searchText
                  \<lparr> hl_noteId = note_id note, hl_exact = True \<rparr> slots
            | None \<Rightarrow>
                (let searchWords = filter (\<lambda>w. 3 < length w) (splitFrom [] searchText) in
                 if searchWords = [] then slots
                 else
                   (let fuzzySearch = joinWords (take 3 searchWords) in
                    case indexOf (normalizedFullText slots) fuzzySearch of
                      Some fuzzyIndex \<Rightarrow>
                        surround 0 fuzzyIndex fuzzySearch
                          \<lparr> hl_noteId = note_id note, hl_exact = False \<rparr> slots
                    | None \<Rightarrow> slots)))))"

text \<open>
  \<^verbatim>\<open>highlightNotesOnPage(pageNum)\<close>. Without a note for the page it returns. Without a text
  layer it asks to be called again in a second, and with a text layer that has no text
  node, in half a second; the document is as it was. Otherwise the highlights of the layer
  are unwrapped and the notes of the page are gone through in the order of \<^verbatim>\<open>bookNotes\<close>.
\<close>

definition highlightNotesOnPage :: "int \<Rightarrow> document \<Rightarrow> outcome \<times> document" where
  "highlightNotesOnPage pageNum doc =
     (let pageNotes = filter (\<lambda>note. note_page note = pageNum) (bookNotes doc) in
      if pageNotes = [] then (NoNotes, doc)
      else
        (case chosenLayer pageNum (textLayers doc) of
           None \<Rightarrow> (Retry 1000, doc)
         | Some k \<Rightarrow>
             (let textLayer = snd (textLayers doc ! k) in
              if textLayer = [] then (Retry 500, doc)
              else
                (Highlighted,
                 doc\<lparr>textLayers := (textLayers doc)
                      [k := (fst (textLayers doc ! k),
                             layerOf (foldl (\<lambda>slots note. highlightNote note slots)
                                        (allTextNodes textLayer) pageNotes))]\<rparr>))))"

text \<open>The text nodes of a layer inside a highlight that carries the note id \<open>i\<close>.\<close>

definition decorationsOf :: "jsstring \<Rightarrow> text_node list \<Rightarrow> text_node list" where
  "decorationsOf i layer =
     filter (\<lambda>nd. case wrapper nd of None \<Rightarrow> False | Some spanEl \<Rightarrow> hl_noteId spanEl = i) layer"

text \<open>
  Documents for the examples. In each the one text layer carries the number of the page
  of the notes.
  \<^item> \<open>helloPage\<close>: one text node \<^verbatim>\<open>say hello\nworld now\<close> and a note taken on
    \<^verbatim>\<open>hello   world\<close>.
  \<^item> \<open>blankNotePage\<close>: one text node \<^verbatim>\<open>hello\<close> and a note whose selected text is one space.
  \<^item> \<open>sameIdPage\<close>: one text node \<^verbatim>\<open>hello\<close> and two notes with the same id, taken on
    \<^verbatim>\<open>lo\<close> and on \<^verbatim>\<open>he\<close>.
  \<^item> \<open>twoNotesPage\<close>: the text node of \<open>helloPage\<close> and two notes, taken on \<^verbatim>\<open>hello\<close> and
    on \<^verbatim>\<open>world\<close>.
  \<^item> \<open>twoNodesPage\<close>: the same two notes, the text in two nodes, \<^verbatim>\<open>say hello\<close> and
    \<^verbatim>\<open> world now\<close>.
\<close>

definition helloPage :: document where
  "helloPage =
     \<lparr> bookNotes =
         [\<lparr> note_id = js ''n1'', note_page = 2, note_selectedText = js ''hello   world'',
            note_title = None, note_content = [] \<rparr>],
       textLayers = [(Some 2, [\<lparr> textContent = js ''say hello'' @ [0xA] @ js ''world now'',
                                 wrapper = None \<rparr>])] \<rparr>"



definition twoNotesPage :: document where
  "twoNotesPage =
     \<lparr> bookNotes =
         [\<lparr> note_id = js ''n1'', note_page = 2, note_selectedText = js ''hello'',
            note_title = None, note_content = [] \<rparr>,
          \<lparr> note_id = js ''n2'', note_page = 2, note_selectedText = js ''world'',
            note_title = None, note_content = [] \<rparr>],
       textLayers = [(Some 2, [\<lparr> textContent = js ''say hello'' @ [0xA] @ js ''world now'',
                                 wrapper = None \<rparr>])] \<rparr>"

definition twoNodesPage :: document where
  "twoNodesPage =
     \<lparr> bookNotes = bookNotes twoNotesPage,
       textLayers = [(Some 2, [\<lparr> textContent = js ''say hello'', wrapper = None \<rparr>,
                               \<lparr> textContent = js '' world now'', wrapper = None \<rparr>])] \<rparr>"

section \<open>Properties of the bridge\<close>

subsection \<open>Sending\<close>

lemma sentOf_append: "sentOf (xs @ ys) = sentOf xs @ sentOf ys"
  by (induction xs rule: sentOf.induct) simp_all

lemma sendToFlutter_eq:
  "sendToFlutter type d w =
     w\<lparr>posted := (if hasParent w then posted w @ [mkMessage type d w] else posted w),
       console := console w @ [Sending (mkMessage type d w)]\<rparr>"
  by (simp add: sendToFlutter_def mkMessage_def Let_def)

lemma sentSince_append: "sent w' = sent w @ ms \<Longrightarrow> sentSince w w' = ms"
  by (simp add: sentSince_def)

lemma sentSince_same: "sent w' = sent w \<Longrightarrow> sentSince w w' = []"
  by (simp add: sentSince_def)

subsection \<open>Selections and highlights\<close>

lemma trim_whitespace: "(\<forall>c \<in> set s. isWhiteSpace c) \<Longrightarrow> trim s = []"
  by (auto simp: trim_def dest: set_dropWhileD)

text \<open>
  C9. When \<^verbatim>\<open>onTextSelection\<close> runs on a selection whose string is empty or all white
  space, it sends exactly one message, a \<^verbatim>\<open>textSelection\<close> with the empty text, the current
  page and a null position; the message is posted when there is a parent window; and the
  stored text and position are reset.
\<close>

theorem onTextSelection_cleared:
  assumes "\<forall>c \<in> set (selString (windowSelection w)). isWhiteSpace c"
  shows "sent (onTextSelection w) =
           sent w @ [\<lparr> msgType = ''textSelection'', timestamp = clock w,
                       msgData = TextSelection [] (currentPage w) None \<rparr>] \<and>
         posted (onTextSelection w) =
           (if hasParent w
            then posted w @ [\<lparr> msgType = ''textSelection'', timestamp = clock w,
                       msgData = TextSelection [] (currentPage w) None \<rparr>]
            else posted w) \<and>
         selectedText (onTextSelection w) = [] \<and>
         selectedTextPosition (onTextSelection w) = None"
  using trim_whitespace[OF assms]
  by (simp add: onTextSelection_def Let_def sendToFlutter_eq mkMessage_def
      dataTimestamp_def sent_def sentOf_append)

theorem onTextSelection_cleared_witness:
  "(\<forall>c \<in> set [0x20, 0x9, 0xA :: 16 word]. isWhiteSpace c) = True \<and>
   posted (onTextSelection ((loaded 7 True None)
       \<lparr>windowSelection := \<lparr> selString = [0x20, 0x9, 0xA], selRanges = [] \<rparr>,
        selectedText := [0x68, 0x69],
        selectedTextPosition := Some \<lparr> pos_x = 1, pos_y = 2, pos_width = 3, pos_height = 4 \<rparr>\<rparr>)) =
     [\<lparr> msgType = ''textSelection'', timestamp = 7, msgData = TextSelection [] 1 None \<rparr>] \<and>
   selectedText (onTextSelection ((loaded 7 True None)
       \<lparr>windowSelection := \<lparr> selString = [0x20, 0x9, 0xA], selRanges = [] \<rparr>,
        selectedText := [0x68, 0x69],
        selectedTextPosition := Some \<lparr> pos_x = 1, pos_y = 2, pos_width = 3, pos_height = 4 \<rparr>\<rparr>)) = []"
proof -
  let ?w = "(loaded 7 True None)
       \<lparr>windowSelection := \<lparr> selString = [0x20, 0x9, 0xA], selRanges = [] \<rparr>,
        selectedText := [0x68, 0x69],
        selectedTextPosition := Some \<lparr> pos_x = 1, pos_y = 2, pos_width = 3, pos_height = 4 \<rparr>\<rparr>"
  have h: "\<forall>c \<in> set (selString (windowSelection ?w)). isWhiteSpace c"
    by (simp add: isWhiteSpace_def)
  from onTextSelection_cleared[OF h] show ?thesis
    by (simp add: loaded_def isWhiteSpace_def)
qed

text \<open>
  C10. \<^verbatim>\<open>createHighlight\<close> sends a \<^verbatim>\<open>highlight\<close> message exactly when a non-empty text
  and a position are stored, and sends nothing otherwise; after sending, the stored text and
  position are cleared; and a second call right after any call sends nothing.
\<close>

theorem createHighlight_once:
  "sent (createHighlight text color w) =
     (if selectedText w \<noteq> [] \<and> selectedTextPosition w \<noteq> None
      then sent w @ [\<lparr> msgType = ''highlight'', timestamp = clock w,
                        msgData = Highlight (selectedText w) (currentPage w)
                          (case color of None \<Rightarrow> js ''yellow'' | Some c \<Rightarrow> c)
                          (selectedTextPosition w) \<rparr>]
      else sent w) \<and>
   (selectedText w \<noteq> [] \<and> selectedTextPosition w \<noteq> None \<longrightarrow>
      selectedText (createHighlight text color w) = [] \<and>
      selectedTextPosition (createHighlight text color w) = None) \<and>
   sent (createHighlight text' color' (createHighlight text color w)) =
     sent (createHighlight text color w)"
  by (simp add: createHighlight_def Let_def sendToFlutter_eq mkMessage_def
      dataTimestamp_def sent_def sentOf_append)

theorem createHighlight_once_witness:
  "selectedText ((loaded 7 True None)\<lparr>selectedText := [0x68, 0x69],
       selectedTextPosition := Some \<lparr> pos_x = 1, pos_y = 2, pos_width = 3, pos_height = 4 \<rparr>\<rparr>) \<noteq> [] \<and>
   selectedTextPosition ((loaded 7 True None)\<lparr>selectedText := [0x68, 0x69],
       selectedTextPosition := Some \<lparr> pos_x = 1, pos_y = 2, pos_width = 3, pos_height = 4 \<rparr>\<rparr>) \<noteq> None \<and>
   selectedText (createHighlight [] None ((loaded 7 True None)\<lparr>selectedText := [0x68, 0x69],
       selectedTextPosition := Some \<lparr> pos_x = 1, pos_y = 2, pos_width = 3, pos_height = 4 \<rparr>\<rparr>)) = [] \<and>
   length (sent (createHighlight [] None ((loaded 7 True None)\<lparr>selectedText := [0x68, 0x69],
       selectedTextPosition := Some \<lparr> pos_x = 1, pos_y = 2, pos_width = 3, pos_height = 4 \<rparr>\<rparr>))) = 1"
proof -
  let ?w = "(loaded 7 True None)\<lparr>selectedText := [0x68, 0x69],
       selectedTextPosition := Some \<lparr> pos_x = 1, pos_y = 2, pos_width = 3, pos_height = 4 \<rparr>\<rparr>"
  have h: "selectedText ?w \<noteq> [] \<and> selectedTextPosition ?w \<noteq> None" and s: "sent ?w = []"
    by (simp_all add: loaded_def sent_def)
  from createHighlight_once[of "[]" None ?w] show ?thesis
    using h s by simp
qed

subsection \<open>Commands\<close>

text \<open>
  C8. On a \<^verbatim>\<open>goToPage\<close> command the listener assigns the viewer's page, once, exactly when
  the viewer is there and its page differs from the requested one; when the pages are
  equal the viewer is left as it was and no assignment is made. Beyond the viewer, the
  command changes the console only.
\<close>

theorem goToPage_navigates_iff_different:
  assumes "hostType m = ''goToPage''"
  shows "application (onMessage m w) =
           (case application w of
              None \<Rightarrow> None
            | Some app \<Rightarrow>
                if page app = hostPage m then Some app
                else Some (app\<lparr>page := hostPage m,
                             navigations := navigations app @ [hostPage m]\<rparr>)) \<and>
         onMessage m w = w\<lparr>application := application (onMessage m w),
                              console := console w @ [Received m]\<rparr>"
  using assms by (simp add: onMessage_def Let_def split: option.splits)

theorem goToPage_navigates_iff_different_witness:
  "hostType \<lparr> hostType = ''goToPage'', hostPage = 1, hostZoom = 0 \<rparr> = ''goToPage'' \<and>
   application (onMessage \<lparr> hostType = ''goToPage'', hostPage = 1, hostZoom = 0 \<rparr>
      (loaded 0 True (Some demoApp))) = Some demoApp \<and>
   application (onMessage \<lparr> hostType = ''goToPage'', hostPage = 3, hostZoom = 0 \<rparr>
      (loaded 0 True (Some demoApp))) = Some (demoApp\<lparr>page := 3, navigations := [3]\<rparr>)"
proof -
  have a: "hostType \<lparr> hostType = ''goToPage'', hostPage = 1, hostZoom = 0 \<rparr> = ''goToPage''"
    and b: "hostType \<lparr> hostType = ''goToPage'', hostPage = 3, hostZoom = 0 \<rparr> = ''goToPage''"
    by simp_all
  from goToPage_navigates_iff_different[OF a, of "loaded 0 True (Some demoApp)"]
    goToPage_navigates_iff_different[OF b, of "loaded 0 True (Some demoApp)"]
  show ?thesis
    by (simp add: loaded_def demoApp_def)
qed

subsection \<open>Accumulated times\<close>

lemma roundSeconds_mono: "a \<le> b \<Longrightarrow> roundSeconds a \<le> roundSeconds b"
  by (simp add: roundSeconds_def zdiv_mono1)

lemma timeInv_sendToFlutter:
  "timeInv w \<Longrightarrow> sampleOk d \<Longrightarrow> timeInv (sendToFlutter type d w)"
  by (simp add: timeInv_def sendToFlutter_eq mkMessage_def sent_def sentOf_append)

lemma timeInv_onPageChange: "timeInv w \<Longrightarrow> timeInv (onPageChange n w)"
  by (simp add: timeInv_def onPageChange_def Let_def sendToFlutter_eq mkMessage_def sent_def
      sentOf_append roundSeconds_mono)

lemma timeInv_resetIdleTimer: "timeInv w \<Longrightarrow> timeInv (resetIdleTimer w)"
  by (simp add: timeInv_def resetIdleTimer_def clearTimeout_def Let_def sendToFlutter_eq
      mkMessage_def sent_def sentOf_append split: option.splits)

lemma timeInv_onTextSelection: "timeInv w \<Longrightarrow> timeInv (onTextSelection w)"
  by (simp add: timeInv_def onTextSelection_def Let_def sendToFlutter_eq
      mkMessage_def sent_def sentOf_append split: list.splits)

lemma timeInv_createHighlight: "timeInv w \<Longrightarrow> timeInv (createHighlight text color w)"
  by (simp add: timeInv_def createHighlight_def Let_def sendToFlutter_eq
      mkMessage_def sent_def sentOf_append)

lemma timeInv_onMessage: "timeInv w \<Longrightarrow> timeInv (onMessage m w)"
  by (simp add: timeInv_def onMessage_def Let_def sendToFlutter_eq
      mkMessage_def sent_def sentOf_append split: option.splits)

lemma timeInv_setupEventListeners: "timeInv w \<Longrightarrow> timeInv (setupEventListeners w)"
  by (simp add: timeInv_def setupEventListeners_def resetIdleTimer_def clearTimeout_def Let_def
      sendToFlutter_eq mkMessage_def sent_def sentOf_append split: option.splits)

lemma fire_frame:
  "pageStartTime (fire ts w) = pageStartTime w \<and>
   totalTimeSpent (fire ts w) = totalTimeSpent w \<and>
   activeTimeSpent (fire ts w) = activeTimeSpent w \<and>
   (list_all (\<lambda>m. sampleOk (msgData m)) (sent w) \<longrightarrow>
    list_all (\<lambda>m. sampleOk (msgData m)) (sent (fire ts w)))"
proof (induction ts arbitrary: w)
  case Nil
  then show ?case by simp
next
  case (Cons a ts)
  obtain h due where a: "a = (h, due)" by (cases a)
  let ?w = "idleCallback ((clearTimeout h w)\<lparr>clock := max (clock w) due\<rparr>)"
  have "pageStartTime ?w = pageStartTime w" "totalTimeSpent ?w = totalTimeSpent w"
    "activeTimeSpent ?w = activeTimeSpent w"
    "list_all (\<lambda>m. sampleOk (msgData m)) (sent w) \<longrightarrow>
     list_all (\<lambda>m. sampleOk (msgData m)) (sent ?w)"
    by (simp_all add: idleCallback_def clearTimeout_def sendToFlutter_eq
        mkMessage_def sent_def sentOf_append)
  with Cons.IH[of ?w] show ?case
    by (simp add: a)
qed

lemma timeInv_elapse: "timeInv w \<Longrightarrow> timeInv (elapse d w)"
  using fire_frame[of "sort_key snd (filter (\<lambda>(h, due). due \<le> clock w + int d) (timers w))" w]
  by (simp add: elapse_def Let_def timeInv_def sent_def)

lemma timeInv_funpow: "timeInv w \<Longrightarrow> timeInv ((onPageChange n ^^ k) w)"
  by (induction k) (simp_all add: timeInv_onPageChange)

lemma timeInv_step: "timeInv w \<Longrightarrow> timeInv (step e w)"
proof (cases e)
  case (PageChanging n)
  assume "timeInv w"
  then have "timeInv (w\<lparr>application := map_option (\<lambda>app. app\<lparr>page := n\<rparr>) (application w)\<rparr>)"
    by (simp add: timeInv_def sent_def)
  then show ?thesis
    by (simp add: PageChanging timeInv_funpow)
next
  case (SelectionChange sel)
  assume "timeInv w"
  then have "timeInv (w\<lparr>windowSelection := sel\<rparr>)"
    by (simp add: timeInv_def sent_def)
  then show ?thesis
    by (simp add: SelectionChange timeInv_onTextSelection Let_def)
qed (simp_all add: timeInv_elapse timeInv_setupEventListeners timeInv_resetIdleTimer
      timeInv_onTextSelection timeInv_onMessage timeInv_createHighlight)

lemma timeInv_run: "timeInv w \<Longrightarrow> timeInv (run es w)"
  by (induction es arbitrary: w) (simp_all add: timeInv_step)

lemma timeInv_loaded: "timeInv (loaded t parent app)"
  by (simp add: timeInv_def loaded_def sent_def)

subsection \<open>The idle timer\<close>

lemma timersOk_cleared:
  "timersOk w \<Longrightarrow> timers (case idleTimeout w of Some h \<Rightarrow> clearTimeout h w | None \<Rightarrow> w) = []"
  by (cases "timers w")
     (auto simp: timersOk_def clearTimeout_def list_all_iff filter_empty_conv split: option.splits)

lemma resetIdleTimer_fresh:
  assumes "timersOk w"
  shows "timers (resetIdleTimer w) = [(nextTimer w, clock w + 10000)]"
    and "idleTimeout (resetIdleTimer w) = Some (nextTimer w)"
    and "\<not> isIdle (resetIdleTimer w)"
    and "clock (resetIdleTimer w) = clock w"
    and "domListeners (resetIdleTimer w) = domListeners w"
    and "sent (resetIdleTimer w) =
           (if isIdle w
            then sent w @ [\<lparr> msgType = ''idleStateChange'', timestamp = clock w,
                             msgData = IdleStateChange False \<rparr>]
            else sent w)"
  using timersOk_cleared[OF assms]
  by (auto simp: resetIdleTimer_def Let_def sendToFlutter_eq mkMessage_def dataTimestamp_def
      clearTimeout_def sent_def sentOf_append split: option.splits)

lemma elapse_pending:
  assumes "timers w = [(h, due)]"
  shows "elapse d w =
           (if due \<le> clock w + int d
            then (idleCallback ((clearTimeout h w)\<lparr>clock := max (clock w) due\<rparr>))
                   \<lparr>clock := clock w + int d\<rparr>
            else w\<lparr>clock := clock w + int d\<rparr>)"
  using assms by (simp add: elapse_def Let_def)

lemma timersOk_fire: "timersOk w \<Longrightarrow> timersOk (fire ts w)"
proof (induction ts arbitrary: w)
  case Nil
  then show ?case by simp
next
  case (Cons a ts)
  obtain h due where a: "a = (h, due)" by (cases a)
  from Cons.prems
  have "timersOk (idleCallback ((clearTimeout h w)\<lparr>clock := max (clock w) due\<rparr>))"
    by (simp add: timersOk_def idleCallback_def clearTimeout_def sendToFlutter_eq list_all_iff)
  then show ?case
    by (simp add: a Cons.IH)
qed

lemma timersOk_elapse: "timersOk w \<Longrightarrow> timersOk (elapse d w)"
  using timersOk_fire[of w "sort_key snd (filter (\<lambda>(h, due). due \<le> clock w + int d) (timers w))"]
  by (simp add: elapse_def Let_def timersOk_def)

lemma timersOk_resetIdleTimer: "timersOk w \<Longrightarrow> timersOk (resetIdleTimer w)"
  by (simp add: timersOk_def resetIdleTimer_fresh[unfolded timersOk_def])

lemma timersOk_onPageChange: "timersOk w \<Longrightarrow> timersOk (onPageChange n w)"
  by (simp add: timersOk_def onPageChange_def Let_def sendToFlutter_eq)

lemma timersOk_funpow: "timersOk w \<Longrightarrow> timersOk ((onPageChange n ^^ k) w)"
  by (induction k) (simp_all add: timersOk_onPageChange)

lemma timersOk_onTextSelection: "timersOk w \<Longrightarrow> timersOk (onTextSelection w)"
  by (simp add: timersOk_def onTextSelection_def Let_def sendToFlutter_eq split: list.splits)

lemma timersOk_createHighlight: "timersOk w \<Longrightarrow> timersOk (createHighlight text color w)"
  by (simp add: timersOk_def createHighlight_def Let_def sendToFlutter_eq)

lemma timersOk_onMessage: "timersOk w \<Longrightarrow> timersOk (onMessage m w)"
  by (simp add: timersOk_def onMessage_def Let_def sendToFlutter_eq split: option.splits)

lemma timersOk_setupEventListeners: "timersOk w \<Longrightarrow> timersOk (setupEventListeners w)"
proof -
  assume ok: "timersOk w"
  have *: "timersOk (w\<lparr>pageChangingHandlers := k, currentPage := p, pageStartTime := s,
                        console := c, domListeners := b\<rparr>)" for k p s c b
    using ok by (simp add: timersOk_def)
  show ?thesis
    using ok timersOk_resetIdleTimer[OF *]
    by (simp add: setupEventListeners_def Let_def sendToFlutter_eq timersOk_def
        split: option.splits)
qed

lemma timersOk_step: "timersOk w \<Longrightarrow> timersOk (step e w)"
proof (cases e)
  case (PageChanging n)
  assume "timersOk w"
  then have "timersOk (w\<lparr>application := map_option (\<lambda>app. app\<lparr>page := n\<rparr>) (application w)\<rparr>)"
    by (simp add: timersOk_def)
  then show ?thesis
    by (simp add: PageChanging timersOk_funpow)
next
  case (SelectionChange sel)
  assume "timersOk w"
  then have "timersOk (w\<lparr>windowSelection := sel\<rparr>)"
    by (simp add: timersOk_def)
  then show ?thesis
    by (simp add: SelectionChange timersOk_onTextSelection Let_def)
qed (simp_all add: timersOk_elapse timersOk_setupEventListeners timersOk_resetIdleTimer
      timersOk_onTextSelection timersOk_onMessage timersOk_createHighlight)

lemma timersOk_run: "timersOk w \<Longrightarrow> timersOk (run es w)"
  by (induction es arbitrary: w) (simp_all add: timersOk_step)

lemma timersOk_loaded: "timersOk (loaded t parent app)"
  by (simp add: timersOk_def loaded_def)

lemma run_append: "run (es @ es') w = run es' (run es w)"
  by (induction es arbitrary: w) simp_all

lemma idleChanges_append: "idleChanges (xs @ ys) = idleChanges xs @ idleChanges ys"
  by (induction xs) (simp_all split: payload.splits)

lemma sameTimer_refl: "sameTimer w w"
  by (simp add: sameTimer_def)

lemma sameTimer_trans: "sameTimer w w' \<Longrightarrow> sameTimer w' w'' \<Longrightarrow> sameTimer w w''"
  by (auto simp: sameTimer_def idleChanges_append)

lemma sameTimer_onPageChange: "sameTimer w (onPageChange n w)"
  by (simp add: sameTimer_def onPageChange_def Let_def sendToFlutter_eq mkMessage_def
      sent_def sentOf_append)

lemma sameTimer_funpow: "sameTimer w ((onPageChange n ^^ k) w)"
proof (induction k)
  case 0
  show ?case by (simp add: sameTimer_refl)
next
  case (Suc k)
  from sameTimer_trans[OF Suc sameTimer_onPageChange] show ?case
    by simp
qed

lemma sameTimer_onTextSelection: "sameTimer w (onTextSelection w)"
  by (simp add: sameTimer_def onTextSelection_def Let_def sendToFlutter_eq mkMessage_def
      sent_def sentOf_append split: list.splits)

lemma sameTimer_createHighlight: "sameTimer w (createHighlight text color w)"
  by (simp add: sameTimer_def createHighlight_def Let_def sendToFlutter_eq mkMessage_def
      sent_def sentOf_append)

lemma sameTimer_onMessage: "sameTimer w (onMessage m w)"
  by (simp add: sameTimer_def onMessage_def Let_def sendToFlutter_eq mkMessage_def
      sent_def sentOf_append split: option.splits)

lemma sameTimer_step:
  assumes "quiet e" and "\<forall>d. e \<noteq> Elapse d"
  shows "sameTimer w (step e w)"
proof (cases e)
  case (PageChanging n)
  let ?w = "w\<lparr>application := map_option (\<lambda>app. app\<lparr>page := n\<rparr>) (application w)\<rparr>"
  have "sameTimer w ?w"
    by (simp add: sameTimer_def sent_def)
  from sameTimer_trans[OF this sameTimer_funpow] show ?thesis
    by (simp add: PageChanging)
next
  case (SelectionChange sel)
  have "sameTimer w (w\<lparr>windowSelection := sel\<rparr>)"
    by (simp add: sameTimer_def sent_def)
  from this sameTimer_trans[OF this sameTimer_onTextSelection] show ?thesis
    by (simp add: SelectionChange Let_def)
qed (use assms in \<open>simp_all add: sameTimer_refl sameTimer_onTextSelection sameTimer_onMessage
      sameTimer_createHighlight\<close>)

lemma activeFor_sameTimer: "activeFor t w \<Longrightarrow> sameTimer w w' \<Longrightarrow> activeFor t w'"
  by (auto simp: activeFor_def sameTimer_def)

lemma idleNow_sameTimer: "idleNow w \<Longrightarrow> sameTimer w w' \<Longrightarrow> idleNow w'"
  by (auto simp: idleNow_def sameTimer_def)

lemma activeFor_timersOk: "activeFor t w \<Longrightarrow> timersOk w"
  by (auto simp: activeFor_def timersOk_def)

lemma idleNow_timersOk: "idleNow w \<Longrightarrow> timersOk w"
  by (simp add: idleNow_def timersOk_def)

lemma activeFor_reset:
  assumes "timersOk w" and "domListeners w"
  shows "activeFor 0 (resetIdleTimer w)"
  using resetIdleTimer_fresh[OF assms(1)] assms(2) by (simp add: activeFor_def)

lemma activeFor_short:
  assumes "activeFor t w" and "t + d < 10000"
  shows "activeFor (t + d) (elapse d w) \<and> sent (elapse d w) = sent w"
proof -
  from assms(1) obtain h where h: "timers w = [(h, clock w - int t + 10000)]"
    and act: "\<not> isIdle w" "domListeners w" "idleTimeout w = Some h"
    by (auto simp: activeFor_def)
  have "elapse d w = w\<lparr>clock := clock w + int d\<rparr>"
    using assms(2) by (simp add: elapse_pending[OF h])
  then show ?thesis
    using act h assms(2) by (simp add: activeFor_def sent_def)
qed

lemma activeFor_long:
  assumes "activeFor t w" and "10000 \<le> t + d"
  shows "idleNow (elapse d w) \<and>
         (\<exists>m. sent (elapse d w) = sent w @ [m] \<and> msgData m = IdleStateChange True)"
proof -
  from assms(1) obtain h where h: "timers w = [(h, clock w - int t + 10000)]"
    and act: "\<not> isIdle w" "domListeners w" "idleTimeout w = Some h"
    by (auto simp: activeFor_def)
  have "elapse d w =
      (idleCallback ((clearTimeout h w)\<lparr>clock := max (clock w) (clock w - int t + 10000)\<rparr>))
         \<lparr>clock := clock w + int d\<rparr>"
    using assms(2) by (simp add: elapse_pending[OF h])
  then show ?thesis
    using act h
    by (simp add: idleNow_def sent_def idleCallback_def clearTimeout_def
        sendToFlutter_eq mkMessage_def sentOf_append)
qed

lemma idleNow_elapse: "idleNow w \<Longrightarrow> idleNow (elapse d w) \<and> sent (elapse d w) = sent w"
  by (simp add: idleNow_def elapse_def Let_def sent_def)

lemma idleNow_quiet_run:
  assumes "idleNow w" and "list_all quiet qs"
  shows "idleNow (run qs w) \<and> (\<exists>ms. sent (run qs w) = sent w @ ms \<and> idleChanges ms = [])"
  using assms
proof (induction qs arbitrary: w)
  case Nil
  then show ?case by simp
next
  case (Cons e qs)
  then have q: "quiet e" and qs: "list_all quiet qs"
    by simp_all
  have one: "idleNow (step e w) \<and> (\<exists>ms. sent (step e w) = sent w @ ms \<and> idleChanges ms = [])"
  proof (cases "\<exists>d. e = Elapse d")
    case True
    with idleNow_elapse[OF Cons.prems(1)] show ?thesis
      by auto
  next
    case False
    with sameTimer_step[OF q, of w] have st: "sameTimer w (step e w)"
      by simp
    with idleNow_sameTimer[OF Cons.prems(1) st] show ?thesis
      by (simp add: sameTimer_def)
  qed
  then obtain ms where ms: "sent (step e w) = sent w @ ms" "idleChanges ms = []"
    by blast
  from Cons.IH[OF conjunct1[OF one] qs]
  obtain ms' where "idleNow (run qs (step e w))"
    and "sent (run qs (step e w)) = sent (step e w) @ ms'" "idleChanges ms' = []"
    by blast
  with ms show ?case
    by (simp add: idleChanges_append)
qed

lemma activeFor_quiet_run:
  assumes "activeFor t w" and "list_all quiet qs"
  shows "(t + duration qs < 10000 \<longrightarrow>
            activeFor (t + duration qs) (run qs w) \<and>
            (\<exists>ms. sent (run qs w) = sent w @ ms \<and> idleChanges ms = [])) \<and>
         (10000 \<le> t + duration qs \<longrightarrow>
            idleNow (run qs w) \<and>
            (\<exists>ms. sent (run qs w) = sent w @ ms \<and> idleChanges ms = [True]))"
  using assms
proof (induction qs arbitrary: t w)
  case Nil
  then show ?case by (simp add: activeFor_def)
next
  case (Cons e qs)
  then have q: "quiet e" and qs: "list_all quiet qs"
    by simp_all
  show ?case
  proof (cases "\<exists>d. e = Elapse d")
    case True
    then obtain d where e: "e = Elapse d" by blast
    show ?thesis
    proof (cases "t + d < 10000")
      case True
      note s = activeFor_short[OF Cons.prems(1) True]
      from Cons.IH[OF conjunct1[OF s] qs] s show ?thesis
        by (simp add: e add.assoc)
    next
      case False
      then have long: "10000 \<le> t + d" by simp
      from activeFor_long[OF Cons.prems(1) long]
      obtain m where i: "idleNow (elapse d w)" and m: "sent (elapse d w) = sent w @ [m]"
        "msgData m = IdleStateChange True"
        by blast
      from idleNow_quiet_run[OF i qs]
      obtain ms where "idleNow (run qs (elapse d w))"
        and "sent (run qs (elapse d w)) = sent (elapse d w) @ ms" "idleChanges ms = []"
        by blast
      with m long show ?thesis
        by (simp add: e idleChanges_append)
    qed
  next
    case False
    with sameTimer_step[OF q, of w] have st: "sameTimer w (step e w)"
      by simp
    then obtain ms where ms: "sent (step e w) = sent w @ ms" "idleChanges ms = []"
      by (auto simp: sameTimer_def)
    have d: "duration (e # qs) = duration qs"
      using False by (cases e) simp_all
    from Cons.IH[OF activeFor_sameTimer[OF Cons.prems(1) st] qs] ms show ?thesis
      by (auto simp: d idleChanges_append)
  qed
qed

lemma activeFor_calm_run:
  assumes "activeFor t w" and "calm t es"
  shows "\<not> isIdle (run es w) \<and> (\<exists>ms. sent (run es w) = sent w @ ms \<and> idleChanges ms = [])"
  using assms
proof (induction es arbitrary: t w)
  case Nil
  then show ?case by (simp add: activeFor_def)
next
  case (Cons e es)
  have "\<exists>t'. activeFor t' (step e w) \<and> calm t' es \<and>
          (\<exists>ms. sent (step e w) = sent w @ ms \<and> idleChanges ms = [])"
  proof (cases e)
    case (Elapse d)
    with Cons.prems(2) have "t + d < 10000" "calm (t + d) es"
      by simp_all
    with activeFor_short[OF Cons.prems(1), of d] show ?thesis
      by (auto simp: Elapse)
  next
    case Interaction
    from Cons.prems(1) have l: "domListeners w" and n: "\<not> isIdle w"
      by (simp_all add: activeFor_def)
    note ok = activeFor_timersOk[OF Cons.prems(1)]
    from resetIdleTimer_fresh(6)[OF ok] n have "sent (resetIdleTimer w) = sent w"
      by simp
    with activeFor_reset[OF ok l] Cons.prems(2) l show ?thesis
      by (auto simp: Interaction)
  next
    case Setup
    with Cons.prems(2) show ?thesis by simp
  next
    case (PageChanging n)
    then have "quiet e" "\<forall>d. e \<noteq> Elapse d" by simp_all
    note st = sameTimer_step[OF this, of w]
    with activeFor_sameTimer[OF Cons.prems(1) st] Cons.prems(2) show ?thesis
      by (auto simp: PageChanging sameTimer_def)
  next
    case (SelectionChange sel)
    then have "quiet e" "\<forall>d. e \<noteq> Elapse d" by simp_all
    note st = sameTimer_step[OF this, of w]
    with activeFor_sameTimer[OF Cons.prems(1) st] Cons.prems(2) show ?thesis
      by (auto simp: SelectionChange sameTimer_def)
  next
    case MouseUp
    then have "quiet e" "\<forall>d. e \<noteq> Elapse d" by simp_all
    note st = sameTimer_step[OF this, of w]
    with activeFor_sameTimer[OF Cons.prems(1) st] Cons.prems(2) show ?thesis
      by (auto simp: MouseUp sameTimer_def)
  next
    case (HostCommand m)
    then have "quiet e" "\<forall>d. e \<noteq> Elapse d" by simp_all
    note st = sameTimer_step[OF this, of w]
    with activeFor_sameTimer[OF Cons.prems(1) st] Cons.prems(2) show ?thesis
      by (auto simp: HostCommand sameTimer_def)
  next
    case (CreateHighlight tx col)
    then have "quiet e" "\<forall>d. e \<noteq> Elapse d" by simp_all
    note st = sameTimer_step[OF this, of w]
    with activeFor_sameTimer[OF Cons.prems(1) st] Cons.prems(2) show ?thesis
      by (auto simp: CreateHighlight sameTimer_def)
  qed
  then obtain t' ms where a: "activeFor t' (step e w)" and c: "calm t' es"
    and ms: "sent (step e w) = sent w @ ms" "idleChanges ms = []"
    by blast
  from Cons.IH[OF a c] ms show ?case
    by (auto simp: idleChanges_append)
qed

text \<open>
  C3. Take any state the loaded script can reach in which the document listeners are
  registered, and let the user interact (\<open>w1\<close>: the tracker is active). Let any quiet
  events follow, time passing among them (\<open>w2\<close>), and then an interaction (\<open>w3\<close>). If less
  than ten seconds have passed, no \<^verbatim>\<open>idleStateChange\<close> was sent and the tracker is still
  active. If ten seconds or more have passed, however many, exactly one
  \<^verbatim>\<open>idleStateChange\<close> was sent, with \<^verbatim>\<open>isIdle: true\<close>; the interaction sends exactly one,
  with \<^verbatim>\<open>isIdle: false\<close>; and whatever follows sends none as long as no ten seconds pass
  without an interaction.
\<close>

theorem idle_transitions:
  assumes "w0 = run es (loaded t parent app)" and "domListeners w0"
    and "w1 = step Interaction w0"
    and "list_all quiet qs" and "w2 = run qs w1"
    and "w3 = step Interaction w2"
  shows "(duration qs < 10000 \<longrightarrow> idleChanges (sentSince w1 w2) = [] \<and> \<not> isIdle w2) \<and>
         (10000 \<le> duration qs \<longrightarrow>
            idleChanges (sentSince w1 w2) = [True] \<and> isIdle w2 \<and>
            idleChanges (sentSince w2 w3) = [False] \<and> \<not> isIdle w3 \<and>
            (calm 0 es' \<longrightarrow>
               idleChanges (sentSince w3 (run es' w3)) = [] \<and> \<not> isIdle (run es' w3)))"
proof -
  have ok0: "timersOk w0"
    by (simp add: assms(1) timersOk_run timersOk_loaded)
  have w1: "w1 = resetIdleTimer w0"
    using assms(2) by (simp add: assms(3))
  have a1: "activeFor 0 w1"
    by (simp add: w1 activeFor_reset ok0 assms(2))
  note pause = activeFor_quiet_run[OF a1 assms(4), folded assms(5), simplified]
  have short: "idleChanges (sentSince w1 w2) = [] \<and> \<not> isIdle w2" if "duration qs < 10000"
    using pause that by (auto simp: sentSince_def activeFor_def)
  have long: "idleChanges (sentSince w1 w2) = [True] \<and> isIdle w2 \<and>
            idleChanges (sentSince w2 w3) = [False] \<and> \<not> isIdle w3 \<and>
            (calm 0 es' \<longrightarrow>
               idleChanges (sentSince w3 (run es' w3)) = [] \<and> \<not> isIdle (run es' w3))"
    if "10000 \<le> duration qs"
  proof -
    from pause that have i2: "idleNow w2" and s2: "idleChanges (sentSince w1 w2) = [True]"
      by (auto simp: sentSince_def)
    from i2 have l2: "domListeners w2" and idle2: "isIdle w2"
      by (simp_all add: idleNow_def)
    have w3: "w3 = resetIdleTimer w2"
      using l2 by (simp add: assms(6))
    note ok2 = idleNow_timersOk[OF i2]
    have s3: "idleChanges (sentSince w2 w3) = [False]"
      using idle2 by (simp add: w3 resetIdleTimer_fresh(6)[OF ok2] sentSince_def)
    have a3: "activeFor 0 w3"
      by (simp add: w3 activeFor_reset[OF ok2 l2])
    have "idleChanges (sentSince w3 (run es' w3)) = [] \<and> \<not> isIdle (run es' w3)"
      if "calm 0 es'"
      using activeFor_calm_run[OF a3 that] by (auto simp: sentSince_def)
    with s2 idle2 s3 a3 show ?thesis
      by (simp add: activeFor_def)
  qed
  show ?thesis
    using short long by blast
qed

theorem idle_transitions_witness:
  "domListeners (run [Setup] (loaded 0 True (Some demoApp))) \<and>
   list_all quiet [Elapse 4000, PageChanging 2, Elapse 6000] \<and>
   10000 \<le> duration [Elapse 4000, PageChanging 2, Elapse 6000] \<and>
   calm 0 [Elapse 3000, Interaction, Elapse 9999, MouseUp, Interaction] \<and>
   idleChanges (sentSince (step Interaction (run [Setup] (loaded 0 True (Some demoApp))))
      (run [Elapse 4000, PageChanging 2, Elapse 6000]
         (step Interaction (run [Setup] (loaded 0 True (Some demoApp)))))) = [True] \<and>
   idleChanges (sentSince
      (run [Elapse 4000, PageChanging 2, Elapse 6000]
         (step Interaction (run [Setup] (loaded 0 True (Some demoApp)))))
      (step Interaction (run [Elapse 4000, PageChanging 2, Elapse 6000]
         (step Interaction (run [Setup] (loaded 0 True (Some demoApp))))))) = [False] \<and>
   idleChanges (sentSince
      (step Interaction (run [Elapse 4000, PageChanging 2, Elapse 6000]
         (step Interaction (run [Setup] (loaded 0 True (Some demoApp))))))
      (run [Elapse 3000, Interaction, Elapse 9999, MouseUp, Interaction]
         (step Interaction (run [Elapse 4000, PageChanging 2, Elapse 6000]
            (step Interaction (run [Setup] (loaded 0 True (Some demoApp)))))))) = []"
proof -
  have h: "domListeners (run [Setup] (loaded 0 True (Some demoApp)))"
    by (simp add: setupEventListeners_def loaded_def demoApp_def resetIdleTimer_def
        sendToFlutter_eq Let_def)
  have q: "list_all quiet [Elapse 4000, PageChanging 2, Elapse 6000]"
    and d: "10000 \<le> duration [Elapse 4000, PageChanging 2, Elapse 6000]"
    and c: "calm 0 [Elapse 3000, Interaction, Elapse 9999, MouseUp, Interaction]"
    by simp_all
  from idle_transitions[OF refl h refl q refl refl,
      of "[Elapse 3000, Interaction, Elapse 9999, MouseUp, Interaction]"]
  show ?thesis
    using h q d c by blast
qed

subsection \<open>What reaches the host\<close>

lemma delivered_sendToFlutter: "delivered b w \<Longrightarrow> delivered b (sendToFlutter type d w)"
  by (simp add: delivered_def sendToFlutter_eq sent_def sentOf_append)

lemma delivered_onPageChange: "delivered b w \<Longrightarrow> delivered b (onPageChange n w)"
  by (simp add: delivered_def onPageChange_def Let_def sendToFlutter_eq sent_def sentOf_append)

lemma delivered_funpow: "delivered b w \<Longrightarrow> delivered b ((onPageChange n ^^ k) w)"
  by (induction k) (simp_all add: delivered_onPageChange)

lemma delivered_resetIdleTimer: "delivered b w \<Longrightarrow> delivered b (resetIdleTimer w)"
  by (simp add: delivered_def resetIdleTimer_def clearTimeout_def Let_def sendToFlutter_eq
      sent_def sentOf_append split: option.splits)

lemma delivered_onTextSelection: "delivered b w \<Longrightarrow> delivered b (onTextSelection w)"
  by (simp add: delivered_def onTextSelection_def Let_def sendToFlutter_eq
      sent_def sentOf_append split: list.splits)

lemma delivered_createHighlight: "delivered b w \<Longrightarrow> delivered b (createHighlight text color w)"
  by (simp add: delivered_def createHighlight_def Let_def sendToFlutter_eq
      sent_def sentOf_append)

lemma delivered_onMessage: "delivered b w \<Longrightarrow> delivered b (onMessage m w)"
  by (simp add: delivered_def onMessage_def Let_def sendToFlutter_eq
      sent_def sentOf_append split: option.splits)

lemma delivered_setupEventListeners:
  assumes "delivered b w"
  shows "delivered b (setupEventListeners w)"
proof -
  have failed: "delivered b (w\<lparr>console := console w @ [Info x, Error y]\<rparr>)" for x y
    using assms by (simp add: delivered_def sent_def sentOf_append)
  have registered: "delivered b (w\<lparr>pageChangingHandlers := k, currentPage := p,
      pageStartTime := s, console := console w @ [Info x, Info y], domListeners := True\<rparr>)"
    for k p s x y
    using assms by (simp add: delivered_def sent_def sentOf_append)
  show ?thesis
    using failed delivered_sendToFlutter[OF delivered_resetIdleTimer[OF registered]]
    by (simp add: setupEventListeners_def Let_def split: option.splits)
qed

lemma delivered_fire: "delivered b w \<Longrightarrow> delivered b (fire ts w)"
proof (induction ts arbitrary: w)
  case Nil
  then show ?case by simp
next
  case (Cons a ts)
  obtain h due where a: "a = (h, due)" by (cases a)
  from Cons.prems
  have "delivered b (idleCallback ((clearTimeout h w)\<lparr>clock := max (clock w) due\<rparr>))"
    by (simp add: delivered_def idleCallback_def clearTimeout_def sendToFlutter_eq
        sent_def sentOf_append)
  then show ?case
    by (simp add: a Cons.IH)
qed

lemma delivered_elapse: "delivered b w \<Longrightarrow> delivered b (elapse d w)"
  using delivered_fire[of b w "sort_key snd (filter (\<lambda>(h, due). due \<le> clock w + int d) (timers w))"]
  by (simp add: elapse_def Let_def delivered_def sent_def)

lemma delivered_step: "delivered b w \<Longrightarrow> delivered b (step e w)"
proof (cases e)
  case (PageChanging n)
  assume "delivered b w"
  then have "delivered b (w\<lparr>application := map_option (\<lambda>app. app\<lparr>page := n\<rparr>) (application w)\<rparr>)"
    by (simp add: delivered_def sent_def)
  then show ?thesis
    by (simp add: PageChanging delivered_funpow)
next
  case (SelectionChange sel)
  assume "delivered b w"
  then have "delivered b (w\<lparr>windowSelection := sel\<rparr>)"
    by (simp add: delivered_def sent_def)
  then show ?thesis
    by (simp add: SelectionChange delivered_onTextSelection Let_def)
qed (simp_all add: delivered_elapse delivered_setupEventListeners delivered_resetIdleTimer
      delivered_onTextSelection delivered_onMessage delivered_createHighlight)

lemma delivered_run: "delivered b w \<Longrightarrow> delivered b (run es w)"
  by (induction es arbitrary: w) (simp_all add: delivered_step)

lemma delivered_loaded: "delivered parent (loaded t parent app)"
  by (simp add: delivered_def loaded_def sent_def)

text \<open>
  C7. \<^verbatim>\<open>sendToFlutter\<close> has no failing branch: it returns a world. Without a parent window
  nothing is posted; with one, exactly one message is appended to what was posted, made of
  the given type, the payload and the time stamp. Beyond \<open>posted\<close>, the call changes the
  console only. So in every state the loaded script can reach, when there is a parent
  window the messages posted are the messages sent, each once and in order, and when
  there is none nothing was posted.
\<close>

theorem sendToFlutter_delivers_once_or_drops:
  "(\<not> hasParent w \<longrightarrow> posted (sendToFlutter type d w) = posted w) \<and>
   (hasParent w \<longrightarrow>
      (\<exists>m. posted (sendToFlutter type d w) = posted w @ [m] \<and>
           msgType m = type \<and> msgData m = d \<and>
           timestamp m = (case dataTimestamp d of Some t \<Rightarrow> t | None \<Rightarrow> clock w))) \<and>
   sendToFlutter type d w =
     w\<lparr>posted := posted (sendToFlutter type d w),
       console := console w @ [Sending (mkMessage type d w)]\<rparr> \<and>
   posted (run es (loaded t parent app)) =
     (if parent then sent (run es (loaded t parent app)) else [])"
proof -
  have "delivered parent (run es (loaded t parent app))"
    by (simp add: delivered_run delivered_loaded)
  then show ?thesis
    by (simp add: delivered_def sendToFlutter_eq mkMessage_def)
qed

theorem sendToFlutter_delivers_once_or_drops_witness:
  "\<not> hasParent (loaded 0 False None) \<and>
   posted (sendToFlutter ''pdfReady'' (PdfReady 5 1) (loaded 0 False None)) = [] \<and>
   hasParent (loaded 0 True None) \<and>
   length (posted (sendToFlutter ''pdfReady'' (PdfReady 5 1) (loaded 0 True None))) = 1"
proof -
  have a: "\<not> hasParent (loaded 0 False None)" and b: "hasParent (loaded 0 True None)"
    and c: "posted (loaded 0 False None) = []" and d: "posted (loaded 0 True None) = []"
    by (simp_all add: loaded_def)
  note drop = sendToFlutter_delivers_once_or_drops[of "loaded 0 False None" "''pdfReady''"
      "PdfReady 5 1", THEN conjunct1, THEN mp, OF a]
  note once = sendToFlutter_delivers_once_or_drops[of "loaded 0 True None" "''pdfReady''"
      "PdfReady 5 1", THEN conjunct2, THEN conjunct1, THEN mp, OF b]
  from once obtain m
    where "posted (sendToFlutter ''pdfReady'' (PdfReady 5 1) (loaded 0 True None))
             = posted (loaded 0 True None) @ [m]"
    by blast
  then have "length (posted (sendToFlutter ''pdfReady'' (PdfReady 5 1) (loaded 0 True None))) = 1"
    by (simp add: d)
  with a b drop c show ?thesis
    by simp
qed

subsection \<open>Telemetry\<close>

text \<open>The definitions to unfold when a run is evaluated on given events.\<close>

lemmas bridge_defs = loaded_def demoApp_def setupEventListeners_def resetIdleTimer_def
  clearTimeout_def idleCallback_def elapse_def onPageChange_def onMessage_def
  sendToFlutter_eq mkMessage_def dataTimestamp_def roundSeconds_def sent_def sentOf_append
  Let_def

text \<open>
  C6, as the code has it. As long as the clock does not go back, that is, in every run in
  which time passes by a natural number of milliseconds: in every state the loaded script
  can reach, the accumulated active time is at most the accumulated total time, and so it
  is in every \<^verbatim>\<open>pageChange\<close> message sent and in every one posted. And \<^verbatim>\<open>onPageChange\<close>
  keeps the order of the two, in the state and in the sample it sends, whenever the page
  was entered no later than now.
\<close>

theorem active_never_exceeds_total:
  "activeTimeSpent (run es (loaded t parent app)) \<le> totalTimeSpent (run es (loaded t parent app)) \<and>
   list_all (\<lambda>m. sampleOk (msgData m)) (sent (run es (loaded t parent app))) \<and>
   list_all (\<lambda>m. sampleOk (msgData m)) (posted (run es (loaded t parent app))) \<and>
   (activeTimeSpent w \<le> totalTimeSpent w \<and> pageStartTime w \<le> clock w \<longrightarrow>
      activeTimeSpent (onPageChange n w) \<le> totalTimeSpent (onPageChange n w) \<and>
      sampleOk (msgData (last (sent (onPageChange n w)))))"
proof -
  let ?w = "run es (loaded t parent app)"
  have inv: "timeInv ?w"
    by (simp add: timeInv_run timeInv_loaded)
  have "delivered parent ?w"
    by (simp add: delivered_run delivered_loaded)
  with inv have "list_all (\<lambda>m. sampleOk (msgData m)) (posted ?w)"
    by (cases parent) (auto simp: delivered_def timeInv_def)
  moreover have "activeTimeSpent (onPageChange n w) \<le> totalTimeSpent (onPageChange n w) \<and>
      sampleOk (msgData (last (sent (onPageChange n w))))"
    if "activeTimeSpent w \<le> totalTimeSpent w \<and> pageStartTime w \<le> clock w"
    using that
    by (simp add: onPageChange_def Let_def sendToFlutter_eq mkMessage_def sent_def
        sentOf_append roundSeconds_mono)
  ultimately show ?thesis
    using inv by (simp add: timeInv_def)
qed

theorem active_never_exceeds_total_witness:
  "activeTimeSpent (loaded 0 True (Some demoApp)) \<le> totalTimeSpent (loaded 0 True (Some demoApp)) \<and>
   pageStartTime (loaded 0 True (Some demoApp)) \<le> clock (loaded 0 True (Some demoApp)) \<and>
   activeTimeSpent (onPageChange 2 (loaded 0 True (Some demoApp)))
     \<le> totalTimeSpent (onPageChange 2 (loaded 0 True (Some demoApp))) \<and>
   activeTimeSpent (run [Setup, Elapse 12000, PageChanging 2] (loaded 0 True (Some demoApp)))
     \<le> totalTimeSpent (run [Setup, Elapse 12000, PageChanging 2] (loaded 0 True (Some demoApp)))"
proof -
  have h: "activeTimeSpent (loaded 0 True (Some demoApp)) \<le> totalTimeSpent (loaded 0 True (Some demoApp)) \<and>
    pageStartTime (loaded 0 True (Some demoApp)) \<le> clock (loaded 0 True (Some demoApp))"
    by (simp add: loaded_def)
  from active_never_exceeds_total[of "[Setup, Elapse 12000, PageChanging 2]" 0 True "Some demoApp"
      "loaded 0 True (Some demoApp)" 2]
  show ?thesis
    using h by blast
qed

text \<open>
  The condition on the clock is needed. In \<open>clockSetBack\<close> the two times are equal, the
  tracker is idle, and the page was entered a second after what the clock now shows. The
  page change adds the dwell of minus one second to the total time and, the tracker being
  idle, nothing to the active time: the active time is then above the total time, in the
  state and in the sample that is sent and posted.
\<close>

theorem clock_set_back_counterexample:
  "activeTimeSpent clockSetBack = 5000 \<and> totalTimeSpent clockSetBack = 5000 \<and>
   isIdle clockSetBack \<and> pageStartTime clockSetBack = 105000 \<and> clock clockSetBack = 104000 \<and>
   totalTimeSpent (onPageChange 3 clockSetBack) = 4000 \<and>
   activeTimeSpent (onPageChange 3 clockSetBack) = 5000 \<and>
   \<not> activeTimeSpent (onPageChange 3 clockSetBack) \<le> totalTimeSpent (onPageChange 3 clockSetBack) \<and>
   map msgData (sentSince clockSetBack (onPageChange 3 clockSetBack)) = [PageChange 2 3 (- 1) 4 5] \<and>
   \<not> list_all (\<lambda>m. sampleOk (msgData m)) (posted (onPageChange 3 clockSetBack))"
proof -
  have w: "activeTimeSpent clockSetBack = 5000 \<and> totalTimeSpent clockSetBack = 5000 \<and>
      isIdle clockSetBack \<and> pageStartTime clockSetBack = 105000 \<and> clock clockSetBack = 104000 \<and>
      currentPage clockSetBack = 2 \<and> hasParent clockSetBack"
    by (simp add: clockSetBack_def bridge_defs)
  have p: "totalTimeSpent (onPageChange 3 clockSetBack) = 4000 \<and>
      activeTimeSpent (onPageChange 3 clockSetBack) = 5000 \<and>
      map msgData (sentSince clockSetBack (onPageChange 3 clockSetBack)) = [PageChange 2 3 (- 1) 4 5]"
    using w by (simp add: onPageChange_def Let_def sendToFlutter_eq mkMessage_def dataTimestamp_def
      sentSince_def sent_def sentOf_append roundSeconds_def)
  have q: "\<not> list_all (\<lambda>m. sampleOk (msgData m)) (posted (onPageChange 3 clockSetBack))"
    using w by (simp add: onPageChange_def Let_def sendToFlutter_def mkMessage_def dataTimestamp_def
      roundSeconds_def)
  show ?thesis
    using w p q by simp
qed

text \<open>
  C2, as the code has it. At a page change the dwell time, now minus the time the page was
  entered, is added to the total time; it is added whole to the active time when the
  tracker is not idle at that moment, and not at all when it is idle. The sample carries
  the dwell and both sums, in rounded seconds. So a visit of twelve seconds that starts
  with both sums at zero sends total 12 and active 12 when it ends active, and total 12
  and active 0 when it ends idle, however long the tracker was idle during the visit.
\<close>

theorem onPageChange_accounting:
  "totalTimeSpent (onPageChange n w) = totalTimeSpent w + (clock w - pageStartTime w) \<and>
   activeTimeSpent (onPageChange n w) =
     (if isIdle w then activeTimeSpent w else activeTimeSpent w + (clock w - pageStartTime w)) \<and>
   sentSince w (onPageChange n w) =
     [\<lparr> msgType = ''pageChange'', timestamp = clock w,
         msgData = PageChange (currentPage w) n (roundSeconds (clock w - pageStartTime w))
           (roundSeconds (totalTimeSpent (onPageChange n w)))
           (roundSeconds (activeTimeSpent (onPageChange n w))) \<rparr>] \<and>
   (totalTimeSpent w = 0 \<and> activeTimeSpent w = 0 \<and> clock w - pageStartTime w = 12000 \<longrightarrow>
      map msgData (sentSince w (onPageChange n w)) =
        [PageChange (currentPage w) n 12 12 (if isIdle w then 0 else 12)])"
  by (simp add: onPageChange_def Let_def sendToFlutter_eq mkMessage_def dataTimestamp_def
      sentSince_def sent_def sentOf_append roundSeconds_def)

theorem onPageChange_accounting_witness:
  "totalTimeSpent ((loaded 0 True None)\<lparr>clock := 12000, isIdle := True\<rparr>) = 0 \<and>
   activeTimeSpent ((loaded 0 True None)\<lparr>clock := 12000, isIdle := True\<rparr>) = 0 \<and>
   clock ((loaded 0 True None)\<lparr>clock := 12000, isIdle := True\<rparr>)
     - pageStartTime ((loaded 0 True None)\<lparr>clock := 12000, isIdle := True\<rparr>) = 12000 \<and>
   map msgData (sentSince ((loaded 0 True None)\<lparr>clock := 12000, isIdle := True\<rparr>)
      (onPageChange 2 ((loaded 0 True None)\<lparr>clock := 12000, isIdle := True\<rparr>))) =
     [PageChange 1 2 12 12 0]"
proof -
  let ?w = "(loaded 0 True None)\<lparr>clock := 12000, isIdle := True\<rparr>"
  have h: "totalTimeSpent ?w = 0 \<and> activeTimeSpent ?w = 0 \<and> clock ?w - pageStartTime ?w = 12000"
    and i: "isIdle ?w" and p: "currentPage ?w = 1"
    by (simp_all add: loaded_def)
  from onPageChange_accounting[of 2 ?w] h have
    "map msgData (sentSince ?w (onPageChange 2 ?w)) =
        [PageChange (currentPage ?w) 2 12 12 (if isIdle ?w then 0 else 12)]"
    by blast
  then show ?thesis
    using h i p by simp
qed

text \<open>
  The two visits of twelve seconds with three seconds idle. The messages sent show the
  idle period and the samples. When the visit ends active, the active time grows by the
  whole twelve seconds, from 1 to 13; when it ends idle, it does not grow at all. In
  neither does it grow by nine, and in both the total time grows by twelve.
\<close>

theorem idle_portion_counterexample:
  "sent (run visitEndingActive (loaded 0 True (Some demoApp))) =
     [\<lparr> msgType = ''pdfReady'', timestamp = 0, msgData = PdfReady 5 1 \<rparr>,
      \<lparr> msgType = ''pageChange'', timestamp = 1000, msgData = PageChange 1 2 1 1 1 \<rparr>,
      \<lparr> msgType = ''idleStateChange'', timestamp = 10000, msgData = IdleStateChange True \<rparr>,
      \<lparr> msgType = ''idleStateChange'', timestamp = 13000, msgData = IdleStateChange False \<rparr>,
      \<lparr> msgType = ''pageChange'', timestamp = 13000, msgData = PageChange 2 3 12 13 13 \<rparr>] \<and>
   sampleActive (msgData (sent (run visitEndingActive (loaded 0 True (Some demoApp))) ! 4))
     - sampleActive (msgData (sent (run visitEndingActive (loaded 0 True (Some demoApp))) ! 1))
     = 12 \<and>
   sent (run visitEndingIdle (loaded 0 True (Some demoApp))) =
     [\<lparr> msgType = ''pdfReady'', timestamp = 0, msgData = PdfReady 5 1 \<rparr>,
      \<lparr> msgType = ''pageChange'', timestamp = 1000, msgData = PageChange 1 2 1 1 1 \<rparr>,
      \<lparr> msgType = ''idleStateChange'', timestamp = 10000, msgData = IdleStateChange True \<rparr>,
      \<lparr> msgType = ''pageChange'', timestamp = 13000, msgData = PageChange 2 3 12 13 1 \<rparr>] \<and>
   sampleActive (msgData (sent (run visitEndingIdle (loaded 0 True (Some demoApp))) ! 3))
     - sampleActive (msgData (sent (run visitEndingIdle (loaded 0 True (Some demoApp))) ! 1))
     = 0"
proof -
  have a: "sent (run visitEndingActive (loaded 0 True (Some demoApp))) =
     [\<lparr> msgType = ''pdfReady'', timestamp = 0, msgData = PdfReady 5 1 \<rparr>,
      \<lparr> msgType = ''pageChange'', timestamp = 1000, msgData = PageChange 1 2 1 1 1 \<rparr>,
      \<lparr> msgType = ''idleStateChange'', timestamp = 10000, msgData = IdleStateChange True \<rparr>,
      \<lparr> msgType = ''idleStateChange'', timestamp = 13000, msgData = IdleStateChange False \<rparr>,
      \<lparr> msgType = ''pageChange'', timestamp = 13000, msgData = PageChange 2 3 12 13 13 \<rparr>]"
    by (simp add: visitEndingActive_def bridge_defs)
  have b: "sent (run visitEndingIdle (loaded 0 True (Some demoApp))) =
     [\<lparr> msgType = ''pdfReady'', timestamp = 0, msgData = PdfReady 5 1 \<rparr>,
      \<lparr> msgType = ''pageChange'', timestamp = 1000, msgData = PageChange 1 2 1 1 1 \<rparr>,
      \<lparr> msgType = ''idleStateChange'', timestamp = 10000, msgData = IdleStateChange True \<rparr>,
      \<lparr> msgType = ''pageChange'', timestamp = 13000, msgData = PageChange 2 3 12 13 1 \<rparr>]"
    by (simp add: visitEndingIdle_def bridge_defs)
  show ?thesis
    by (simp only: a b) simp
qed

lemma onMessage_goToPage:
  "hostType m = ''goToPage'' \<Longrightarrow>
   onMessage m w =
     (case application w of
        None \<Rightarrow> w\<lparr>console := console w @ [Received m]\<rparr>
      | Some app \<Rightarrow>
          if page app \<noteq> hostPage m
          then w\<lparr>console := console w @ [Received m],
                 application := Some (app\<lparr>page := hostPage m,
                    navigations := navigations app @ [hostPage m]\<rparr>)\<rparr>
          else w\<lparr>console := console w @ [Received m]\<rparr>)"
  by (simp add: onMessage_def Let_def split: option.splits)

lemma onMessage_setZoom:
  "hostType m = ''setZoom'' \<Longrightarrow>
   onMessage m w =
     (case application w of
        None \<Rightarrow> w\<lparr>console := console w @ [Received m]\<rparr>
      | Some app \<Rightarrow>
          (case pdfViewer app of
             None \<Rightarrow> w\<lparr>console := console w @ [Received m, Error ''TypeError'']\<rparr>
           | Some scale \<Rightarrow>
               w\<lparr>console := console w @ [Received m],
                 application := Some (app\<lparr>pdfViewer := Some (hostZoom m)\<rparr>)\<rparr>))"
  by (simp add: onMessage_def Let_def split: option.splits)

lemma onMessage_addBookmark:
  "hostType m = ''addBookmark'' \<Longrightarrow>
   onMessage m w =
     sendToFlutter ''bookmarkAdded'' (BookmarkAdded (currentPage w) (clock w))
       (w\<lparr>console := console w @ [Received m]\<rparr>)"
  by (simp add: onMessage_def Let_def)

lemma onMessage_toggleHighlightMode:
  "hostType m = ''toggleHighlightMode'' \<Longrightarrow>
   onMessage m w =
     sendToFlutter ''highlightModeChanged'' (HighlightModeChanged (\<not> highlightClass w))
       (w\<lparr>console := console w @ [Received m], highlightClass := \<not> highlightClass w\<rparr>)"
  by (simp add: onMessage_def Let_def)

lemma onMessage_other:
  "hostType m \<noteq> ''goToPage'' \<Longrightarrow> hostType m \<noteq> ''setZoom'' \<Longrightarrow>
   hostType m \<noteq> ''addBookmark'' \<Longrightarrow> hostType m \<noteq> ''toggleHighlightMode'' \<Longrightarrow>
   onMessage m w = w\<lparr>console := console w @ [Received m]\<rparr>"
  by (simp add: onMessage_def Let_def)

lemma twice_goToPage:
  "hostType m = ''goToPage'' \<Longrightarrow>
   observable (onMessage m (onMessage m w)) = observable (onMessage m w)"
  by (simp add: onMessage_goToPage observable_def split: option.splits)

lemma twice_setZoom:
  "hostType m = ''setZoom'' \<Longrightarrow>
   observable (onMessage m (onMessage m w)) = observable (onMessage m w)"
  by (simp add: onMessage_setZoom observable_def split: option.splits)

lemma twice_other:
  "hostType m \<noteq> ''goToPage'' \<Longrightarrow> hostType m \<noteq> ''setZoom'' \<Longrightarrow>
   hostType m \<noteq> ''addBookmark'' \<Longrightarrow> hostType m \<noteq> ''toggleHighlightMode'' \<Longrightarrow>
   observable (onMessage m (onMessage m w)) = observable (onMessage m w)"
  by (simp add: onMessage_other observable_def)

lemma twice_toggleHighlightMode:
  assumes "hostType m = ''toggleHighlightMode''"
  shows "highlightClass (onMessage m w) = (\<not> highlightClass w) \<and>
      highlightClass (onMessage m (onMessage m w)) = highlightClass w \<and>
      map msgData (sentSince w (onMessage m (onMessage m w))) =
        [HighlightModeChanged (\<not> highlightClass w), HighlightModeChanged (highlightClass w)]"
  by (simp add: onMessage_toggleHighlightMode[OF assms] sendToFlutter_eq mkMessage_def
      sentSince_def sent_def sentOf_append)

lemma twice_addBookmark:
  assumes "hostType m = ''addBookmark''"
  shows "map msgData (sentSince w (onMessage m w)) = [BookmarkAdded (currentPage w) (clock w)] \<and>
      map msgData (sentSince w (onMessage m (onMessage m w))) =
        [BookmarkAdded (currentPage w) (clock w), BookmarkAdded (currentPage w) (clock w)]"
  by (simp add: onMessage_addBookmark[OF assms] sendToFlutter_eq mkMessage_def
      sentSince_def sent_def sentOf_append)

text \<open>
  C4, as the code has it. A command that is neither \<^verbatim>\<open>addBookmark\<close> nor
  \<^verbatim>\<open>toggleHighlightMode\<close> (so \<^verbatim>\<open>goToPage\<close>, \<^verbatim>\<open>setZoom\<close>, and every type the listener has no
  case for, \<^verbatim>\<open>loadDocument\<close> and \<^verbatim>\<open>displayNotes\<close> among them) leaves, processed twice, the
  world it leaves processed once, the console apart. \<^verbatim>\<open>toggleHighlightMode\<close> flips the
  class each time and sends the new value each time, so two of them restore the class and
  send two messages. \<^verbatim>\<open>addBookmark\<close> sends a \<^verbatim>\<open>bookmarkAdded\<close> with the current page each
  time.
\<close>

theorem commands_twice:
  "(hostType m \<noteq> ''addBookmark'' \<and> hostType m \<noteq> ''toggleHighlightMode'' \<longrightarrow>
      observable (onMessage m (onMessage m w)) = observable (onMessage m w)) \<and>
   (hostType m = ''toggleHighlightMode'' \<longrightarrow>
      highlightClass (onMessage m w) = (\<not> highlightClass w) \<and>
      highlightClass (onMessage m (onMessage m w)) = highlightClass w \<and>
      map msgData (sentSince w (onMessage m (onMessage m w))) =
        [HighlightModeChanged (\<not> highlightClass w), HighlightModeChanged (highlightClass w)]) \<and>
   (hostType m = ''addBookmark'' \<longrightarrow>
      map msgData (sentSince w (onMessage m w)) = [BookmarkAdded (currentPage w) (clock w)] \<and>
      map msgData (sentSince w (onMessage m (onMessage m w))) =
        [BookmarkAdded (currentPage w) (clock w), BookmarkAdded (currentPage w) (clock w)])"
proof (intro conjI impI)
  assume "hostType m \<noteq> ''addBookmark'' \<and> hostType m \<noteq> ''toggleHighlightMode''"
  then show "observable (onMessage m (onMessage m w)) = observable (onMessage m w)"
    using twice_goToPage[of m w] twice_setZoom[of m w] twice_other[of m w] by blast
qed (use twice_toggleHighlightMode[of m w] twice_addBookmark[of m w] in blast)+

theorem commands_twice_witness:
  "hostType \<lparr> hostType = ''goToPage'', hostPage = 3, hostZoom = 0 \<rparr> \<noteq> ''addBookmark'' \<and>
   hostType \<lparr> hostType = ''goToPage'', hostPage = 3, hostZoom = 0 \<rparr> \<noteq> ''toggleHighlightMode'' \<and>
   observable (onMessage \<lparr> hostType = ''goToPage'', hostPage = 3, hostZoom = 0 \<rparr>
      (onMessage \<lparr> hostType = ''goToPage'', hostPage = 3, hostZoom = 0 \<rparr>
         (loaded 0 True (Some demoApp))))
     = observable (onMessage \<lparr> hostType = ''goToPage'', hostPage = 3, hostZoom = 0 \<rparr>
         (loaded 0 True (Some demoApp))) \<and>
   hostType \<lparr> hostType = ''toggleHighlightMode'', hostPage = 0, hostZoom = 0 \<rparr>
     = ''toggleHighlightMode'' \<and>
   highlightClass (onMessage \<lparr> hostType = ''toggleHighlightMode'', hostPage = 0, hostZoom = 0 \<rparr>
      (loaded 0 True (Some demoApp))) = (\<not> highlightClass (loaded 0 True (Some demoApp))) \<and>
   hostType \<lparr> hostType = ''addBookmark'', hostPage = 0, hostZoom = 0 \<rparr> = ''addBookmark'' \<and>
   map msgData (sentSince (loaded 0 True (Some demoApp))
      (onMessage \<lparr> hostType = ''addBookmark'', hostPage = 0, hostZoom = 0 \<rparr>
         (loaded 0 True (Some demoApp))))
     = [BookmarkAdded (currentPage (loaded 0 True (Some demoApp)))
          (clock (loaded 0 True (Some demoApp)))]"
proof -
  let ?g = "\<lparr> hostType = ''goToPage'', hostPage = 3, hostZoom = 0 \<rparr>"
  let ?t = "\<lparr> hostType = ''toggleHighlightMode'', hostPage = 0, hostZoom = 0 \<rparr>"
  let ?b = "\<lparr> hostType = ''addBookmark'', hostPage = 0, hostZoom = 0 \<rparr>"
  let ?w = "loaded 0 True (Some demoApp)"
  have g: "hostType ?g \<noteq> ''addBookmark'' \<and> hostType ?g \<noteq> ''toggleHighlightMode''"
    and t: "hostType ?t = ''toggleHighlightMode''"
    and b: "hostType ?b = ''addBookmark''"
    by simp_all
  note g1 = commands_twice[of ?g ?w, THEN conjunct1, THEN mp, OF g]
  note t1 = commands_twice[of ?t ?w, THEN conjunct2, THEN conjunct1, THEN mp, OF t, THEN conjunct1]
  note b1 = commands_twice[of ?b ?w, THEN conjunct2, THEN conjunct2, THEN mp, OF b, THEN conjunct1]
  show ?thesis
    by (intro conjI g[THEN conjunct1] g[THEN conjunct2] g1 t t1 b b1)
qed

text \<open>
  \<^verbatim>\<open>toggleHighlightMode\<close> processed twice does not leave what it leaves processed once: the
  class is back, and a second message is posted.
\<close>

theorem toggle_twice_counterexample:
  "observable (onMessage \<lparr> hostType = ''toggleHighlightMode'', hostPage = 0, hostZoom = 0 \<rparr>
      (onMessage \<lparr> hostType = ''toggleHighlightMode'', hostPage = 0, hostZoom = 0 \<rparr>
         (loaded 0 True (Some demoApp))))
   \<noteq> observable (onMessage \<lparr> hostType = ''toggleHighlightMode'', hostPage = 0, hostZoom = 0 \<rparr>
         (loaded 0 True (Some demoApp)))"
proof
  let ?m = "\<lparr> hostType = ''toggleHighlightMode'', hostPage = 0, hostZoom = 0 \<rparr>"
  assume "observable (onMessage ?m (onMessage ?m (loaded 0 True (Some demoApp))))
            = observable (onMessage ?m (loaded 0 True (Some demoApp)))"
  then have "highlightClass (observable (onMessage ?m (onMessage ?m (loaded 0 True (Some demoApp)))))
            = highlightClass (observable (onMessage ?m (loaded 0 True (Some demoApp))))"
    by simp
  then show False
    by (simp add: observable_def bridge_defs)
qed

section \<open>Properties of the annotation capture\<close>

subsection \<open>The poll\<close>

lemma pollEditors_nodes: "map el_node (fst (pollEditors p es k)) = map el_node es"
  by (induction es arbitrary: k) (simp_all add: Let_def)

lemma pollEditors_events:
  "map ann_element (fst (snd (pollEditors p es k)))
     = map el_node (filter (\<lambda>e. toPoll p e \<and> \<not> el_throws e) es)"
  by (induction es arbitrary: k) (simp_all add: Let_def toPoll_def captureAnnotationData_def)

lemma pollEditors_unmarked:
  "e \<in> set (fst (pollEditors p es k)) \<Longrightarrow> \<not> el_sent e \<Longrightarrow> e \<in> set es \<and> \<not> toPoll p e"
  by (induction es arbitrary: k) (auto simp: Let_def toPoll_def split: if_splits)

lemma captureInv_pollPage:
  assumes "captureInv st"
  shows "captureInv (pollPage p st)"
proof -
  let ?r = "pollEditors p (elements st) (nextId st)"
  let ?old = "set (map ann_element (emitted st))"
  let ?new = "set (map el_node (filter (\<lambda>e. toPoll p e \<and> \<not> el_throws e) (elements st)))"
  from assms have bound: "list_all (\<lambda>e. el_node e < nextNode st) (elements st)"
    and dist: "distinct (map el_node (elements st))"
    and ebound: "list_all (\<lambda>m. ann_element m < nextNode st) (emitted st)"
    and edist: "distinct (map ann_element (emitted st))"
    and marked: "list_all (\<lambda>e. el_sent e \<or> el_node e \<notin> ?old) (elements st)"
    by (simp_all add: captureInv_def)
  have nodes: "map el_node (fst ?r) = map el_node (elements st)"
    by (rule pollEditors_nodes)
  have events: "map ann_element (fst (snd ?r))
      = map el_node (filter (\<lambda>e. toPoll p e \<and> \<not> el_throws e) (elements st))"
    by (rule pollEditors_events)
  have fresh: "el_node e \<notin> ?old" if "e \<in> set (elements st)" and "toPoll p e" for e
    using that marked by (auto simp: list_all_iff toPoll_def)
  have disjoint: "?old \<inter> ?new = {}"
  proof (rule ccontr)
    assume "?old \<inter> ?new \<noteq> {}"
    then obtain k where "k \<in> ?old" and "k \<in> ?new"
      by blast
    then obtain e where "e \<in> set (elements st)" "toPoll p e" "k = el_node e"
      by auto
    with fresh \<open>k \<in> ?old\<close> show False
      by blast
  qed
  have 1: "list_all (\<lambda>e. el_node e < nextNode st) (fst ?r)"
  proof -
    have "\<forall>n \<in> set (map el_node (fst ?r)). n < nextNode st"
      using bound by (simp add: nodes list_all_iff)
    then show ?thesis
      by (simp add: list_all_iff)
  qed
  have 2: "distinct (map el_node (fst ?r))"
    by (simp add: nodes dist)
  have 3: "list_all (\<lambda>m. ann_element m < nextNode st) (emitted st @ fst (snd ?r))"
  proof -
    have "\<forall>n \<in> set (map ann_element (fst (snd ?r))). n < nextNode st"
      using bound by (auto simp: events list_all_iff)
    then show ?thesis
      using ebound by (auto simp: list_all_iff)
  qed
  have 4: "distinct (map ann_element (emitted st @ fst (snd ?r)))"
    using edist dist disjoint by (simp add: events distinct_map_filter)
  have 5: "list_all (\<lambda>e. el_sent e \<or> el_node e \<notin> set (map ann_element (emitted st @ fst (snd ?r))))
             (fst ?r)"
  proof -
    have "el_node e \<notin> ?old \<union> ?new" if e: "e \<in> set (fst ?r)" and un: "\<not> el_sent e" for e
    proof -
      from pollEditors_unmarked[OF e un] have mem: "e \<in> set (elements st)"
        and no: "\<not> toPoll p e"
        by simp_all
      from mem un marked have "el_node e \<notin> ?old"
        by (auto simp: list_all_iff)
      moreover have "el_node e \<notin> ?new"
      proof
        assume "el_node e \<in> ?new"
        then obtain e' where e': "e' \<in> set (elements st)" "toPoll p e'" "el_node e' = el_node e"
          by auto
        with mem dist have "e' = e"
          by (meson distinct_map inj_onD)
        with e' no show False
          by simp
      qed
      ultimately show ?thesis
        by simp
    qed
    then show ?thesis
      by (auto simp: list_all_iff events)
  qed
  show ?thesis
    using 1 2 3 4 5 by (simp add: captureInv_def pollPage_def Let_def)
qed

lemma captureInv_pollPages: "captureInv st \<Longrightarrow> captureInv (foldl (\<lambda>s i. pollPage (f i) s) st is)"
  by (induction "is" arbitrary: st) (simp_all add: captureInv_pollPage)

lemma captureInv_captureAllAnnotations: "captureInv st \<Longrightarrow> captureInv (captureAllAnnotations st)"
  unfolding captureAllAnnotations_def by (rule captureInv_pollPages)

lemma captureInv_captureStep:
  "captureInv st \<Longrightarrow> polling e \<Longrightarrow> captureInv (captureStep e st)"
proof (cases e)
  case (ElementCreated p child polled ty aid throws)
  assume "captureInv st"
  then show ?thesis
    by (auto simp: ElementCreated captureInv_def list_all_iff less_Suc_eq)
next
  case (ElementRemoved n)
  assume "captureInv st"
  then show ?thesis
    by (auto simp: ElementRemoved captureInv_def list_all_iff distinct_map_filter)
qed (simp_all add: captureInv_captureAllAnnotations)

lemma captureInv_captureRun:
  "captureInv st \<Longrightarrow> list_all polling es \<Longrightarrow> captureInv (captureRun es st)"
  by (induction es arbitrary: st) (simp_all add: captureInv_captureStep)

lemma captureInv_emptyView: "captureInv (emptyView n)"
  by (simp add: captureInv_def emptyView_def)

lemma distinct_count_le_1: "distinct (map f xs) \<Longrightarrow> length (filter (\<lambda>x. f x = n) xs) \<le> 1"
proof (induction xs)
  case Nil
  then show ?case by simp
next
  case (Cons x xs)
  show ?case
  proof (cases "f x = n")
    case True
    with Cons.prems have "n \<notin> f ` set xs"
      by simp
    then have "filter (\<lambda>y. f y = n) xs = []"
      by (auto simp: filter_empty_conv)
    with True show ?thesis by simp
  next
    case False
    with Cons show ?thesis by simp
  qed
qed

text \<open>
  As long as no layer-rendered signal comes, no element is reported twice: among the
  messages sent in a run of polls, creations and removals, at most one is about any one
  element.
\<close>

lemma polling_reports_once:
  assumes "list_all polling es"
  shows "length (filter (\<lambda>m. ann_element m = n) (emitted (captureRun es (emptyView pages)))) \<le> 1"
proof -
  have "captureInv (captureRun es (emptyView pages))"
    by (rule captureInv_captureRun[OF captureInv_emptyView assms])
  then have "distinct (map ann_element (emitted (captureRun es (emptyView pages))))"
    by (simp add: captureInv_def)
  then show ?thesis
    by (rule distinct_count_le_1)
qed

subsection \<open>The layer-rendered signal\<close>

text \<open>
  C5, at the failing input. A viewer with three pages; an element appears in the editor
  layer of page 1, a \<^verbatim>\<open>div\<close> child of the layer that the poll's selector matches too, with
  \<^verbatim>\<open>data-editor-type\<close> \<^verbatim>\<open>ink\<close>. The first poll reports it and marks it with
  \<^verbatim>\<open>data-sent-to-flutter\<close>, and the second poll reports nothing. Then the viewer signals that
  the editor layer of page 1 was rendered: \<^verbatim>\<open>captureEditorAnnotations\<close> passes every \<^verbatim>\<open>div\<close>
  child of the layer to \<^verbatim>\<open>captureAnnotationData\<close> without reading the mark, and the element
  is reported a second time. After one more poll the run has sent two \<^verbatim>\<open>annotation\<close>
  messages about the one element.
\<close>

theorem layer_rendered_reports_again:
  "map el_sent (elements (captureRun
     [ElementCreated 1 True True (Some ''ink'') None False, PollTick] (emptyView 3)))
   = [True] \<and>
   emitted (captureRun
     [ElementCreated 1 True True (Some ''ink'') None False, PollTick, PollTick] (emptyView 3))
   = [\<lparr> ann_type = ''ink'', ann_page = 1, ann_element = 0 \<rparr>] \<and>
   emitted (captureRun
     [ElementCreated 1 True True (Some ''ink'') None False,
      PollTick, PollTick, EditorLayerRendered 1, PollTick]
     (emptyView 3))
   = [\<lparr> ann_type = ''ink'', ann_page = 1, ann_element = 0 \<rparr>,
      \<lparr> ann_type = ''ink'', ann_page = 1, ann_element = 0 \<rparr>]"
  by (simp add: emptyView_def captureAllAnnotations_def pollPage_def captureEditorAnnotations_def
      captureAnnotationData_def Let_def upt_rec)

text \<open>
  Every further signal reports the element once more, marked or not: the signal adds one
  message for each \<^verbatim>\<open>div\<close> child of the page's editor layer whose data can be read.
\<close>

lemma captureEditorAnnotations_reports_all:
  "1 \<le> p \<Longrightarrow> p \<le> int (pageViews st) \<Longrightarrow>
   map ann_element (emitted (captureEditorAnnotations p st)) =
     map ann_element (emitted st) @
     map el_node (filter (\<lambda>e. \<not> el_throws e)
       (filter (\<lambda>e. el_page e = p \<and> el_childDiv e) (elements st)))"
proof -
  have "map ann_element (concat (map (\<lambda>editor. captureAnnotationData editor p) es))
      = map el_node (filter (\<lambda>e. \<not> el_throws e) es)" for es
    by (induction es) (simp_all add: captureAnnotationData_def)
  then show "1 \<le> p \<Longrightarrow> p \<le> int (pageViews st) \<Longrightarrow> ?thesis"
    by (simp add: captureEditorAnnotations_def Let_def)
qed

section \<open>Properties of the note highlights\<close>






lemma decorationsOf_append:
  "decorationsOf i (xs @ ys) = decorationsOf i xs @ decorationsOf i ys"
  by (simp add: decorationsOf_def)









lemma layerIndexFrom_found:
  "layerIndexFrom j p layers = Some k \<Longrightarrow>
   j \<le> k \<and> k - j < length layers \<and> fst (layers ! (k - j)) = Some p"
proof (induction layers arbitrary: j)
  case Nil
  then show ?case by simp
next
  case (Cons l layers)
  obtain q layer where l: "l = (q, layer)" by (cases l)
  show ?case
  proof (cases "q = Some p")
    case True
    with Cons.prems show ?thesis by (simp add: l)
  next
    case False
    with Cons.prems have "layerIndexFrom (Suc j) p layers = Some k"
      by (simp add: l)
    from Cons.IH[OF this] show ?thesis
      by (auto simp: Suc_diff_le)
  qed
qed





text \<open>A layer that carries the page number is the one chosen for the page.\<close>

lemma chosenLayer_own:
  "layerIndexFrom 0 p layers = Some k \<Longrightarrow>
   chosenLayer p layers = Some k \<and> fst (layers ! k) = Some p"
  using layerIndexFrom_found[of 0 p layers k] by (simp add: chosenLayer_def)


text \<open>The definitions to unfold when a call is evaluated on a given document.\<close>

lemmas highlight_defs = highlightNotesOnPage_def highlightNote_def chosenLayer_def
  allTextNodes_def layerOf_def normalizedFullText_def normalizeSearch_def trim_def
  collapseWhitespace_def findRawOffset_def indexOf_def isWhiteSpace_def decorationsOf_def
  js_def Let_def


text \<open>
  The note of \<open>helloPage\<close>: its search text \<^verbatim>\<open>hello world\<close> is found in the normalized text
  \<^verbatim>\<open>say hello world now\<close> at index 4, and the text node is cut in three, the middle one
  inside the highlight.
\<close>

lemma highlight_example:
  "indexOf (normalizedFullText (allTextNodes (snd (textLayers helloPage ! 0))))
     (normalizeSearch (js ''hello   world'')) = Some 4 \<and>
   snd (textLayers (snd (highlightNotesOnPage 2 helloPage)) ! 0) =
     [\<lparr> textContent = js ''say '', wrapper = None \<rparr>,
      \<lparr> textContent = js ''hello'' @ [0xA] @ js ''world'',
        wrapper = Some \<lparr> hl_noteId = js ''n1'', hl_exact = True \<rparr> \<rparr>,
      \<lparr> textContent = js '' now'', wrapper = None \<rparr>]"
  by (simp add: helloPage_def highlight_defs)

text \<open>
  A second call finds the highlight of the first unwrapped and makes it again: there is
  one highlight for the note after every call.
\<close>

lemma highlight_again_example:
  "decorationsOf (js ''n1'')
     (snd (textLayers (snd (highlightNotesOnPage 2 (snd (highlightNotesOnPage 2 helloPage)))) ! 0)) =
     [\<lparr> textContent = js ''hello'' @ [0xA] @ js ''world'',
        wrapper = Some \<lparr> hl_noteId = js ''n1'', hl_exact = True \<rparr> \<rparr>]"
  by (simp add: helloPage_def highlight_defs)




text \<open>
  A note that comes after a highlight in the same text node reads only what is left in
  that node, the text before the highlight: on \<open>twoNotesPage\<close> the search text \<^verbatim>\<open>world\<close> of
  the second note is in the page's normalized text, but the call reads \<^verbatim>\<open>say \<close> for the
  node and makes no highlight for the note. With the two words in two text nodes, on
  \<open>twoNodesPage\<close>, both notes get their highlight.
\<close>

lemma stale_nodes_example:
  "snd (textLayers (snd (highlightNotesOnPage 2 twoNotesPage)) ! 0) =
     [\<lparr> textContent = js ''say '', wrapper = None \<rparr>,
      \<lparr> textContent = js ''hello'', wrapper = Some \<lparr> hl_noteId = js ''n1'', hl_exact = True \<rparr> \<rparr>,
      \<lparr> textContent = [0xA] @ js ''world now'', wrapper = None \<rparr>] \<and>
   snd (textLayers (snd (highlightNotesOnPage 2 twoNodesPage)) ! 0) =
     [\<lparr> textContent = js ''say '', wrapper = None \<rparr>,
      \<lparr> textContent = js ''hello'', wrapper = Some \<lparr> hl_noteId = js ''n1'', hl_exact = True \<rparr> \<rparr>,
      \<lparr> textContent = [], wrapper = None \<rparr>,
      \<lparr> textContent = js '' '', wrapper = None \<rparr>,
      \<lparr> textContent = js ''world'', wrapper = Some \<lparr> hl_noteId = js ''n2'', hl_exact = True \<rparr> \<rparr>,
      \<lparr> textContent = js '' now'', wrapper = None \<rparr>]"
  by (simp add: twoNotesPage_def twoNodesPage_def highlight_defs)

end
